theory Spec2Isabelle
  imports Complex_Main "HOL-Library.Word" "HOL-Library.Sublist"
begin

section \<open>Strings\<close>

text \<open>
  A JavaScript string is a sequence of 16-bit code units. Literals of the source are
  written through \<open>js\<close>, which maps an ASCII literal to its code units.
\<close>

type_synonym code_unit = "16 word"
type_synonym jsstring = "code_unit list"

definition js :: "string \<Rightarrow> jsstring" where
  "js s = map of_char s"

text \<open>
  \<^verbatim>\<open>String.prototype.trim\<close> strips WhiteSpace and LineTerminator code units from both ends:
  TAB, LF, VT, FF, CR, SPACE, NBSP, the space separators U+1680, U+2000..U+200A, U+202F,
  U+205F, U+3000, the separators U+2028 and U+2029, and U+FEFF.
\<close>

definition isWhiteSpace :: "code_unit \<Rightarrow> bool" where
  "isWhiteSpace c =
     (c \<in> set [0x9, 0xA, 0xB, 0xC, 0xD, 0x20, 0xA0, 0x1680, 0x2028, 0x2029,
                0x202F, 0x205F, 0x3000, 0xFEFF]
      \<or> (0x2000 \<le> c \<and> c \<le> 0x200A))"

definition trim :: "jsstring \<Rightarrow> jsstring" where
  "trim s = rev (dropWhile isWhiteSpace (rev (dropWhile isWhiteSpace s)))"

section \<open>JSON extraction (geminiService.ts, extractJSON)\<close>

text \<open>
  \<^verbatim>\<open>text.match(re)\<close> with a regular expression without the \<open>g\<close> flag tries the start
  positions from left to right, the end of the string included, and yields the first
  match. \<open>search m\<close> does that for a matcher \<open>m\<close> anchored at the start of its argument.
\<close>

fun search :: "(jsstring \<Rightarrow> 'a option) \<Rightarrow> jsstring \<Rightarrow> 'a option" where
  "search m [] = m []"
| "search m (c # cs) = (case m (c # cs) of Some r \<Rightarrow> Some r | None \<Rightarrow> search m cs)"

text \<open>
  The lazy group \<^verbatim>\<open>([\s\S]*?)\<close> followed by a literal: the class matches every code unit,
  and the lazy star tries the shorter capture first, so the capture ends at the first
  place where the literal follows. The result is the capture.
\<close>

fun lazy_until :: "jsstring \<Rightarrow> jsstring \<Rightarrow> jsstring option" where
  "lazy_until lit [] = (if prefix lit [] then Some [] else None)"
| "lazy_until lit (c # cs) =
     (if prefix lit (c # cs) then Some [] else map_option ((#) c) (lazy_until lit cs))"

text \<open>
  The greedy \<^verbatim>\<open>[\s\S]*\<close> followed by one literal code unit: the star first takes as much
  as it can and gives code units back until the literal follows, so the longer match is
  tried before the shorter. The result is what was matched, the literal included.
\<close>

fun greedy_until :: "code_unit \<Rightarrow> jsstring \<Rightarrow> jsstring option" where
  "greedy_until d [] = None"
| "greedy_until d (c # cs) =
     (case greedy_until d cs of
        Some r \<Rightarrow> Some (c # r)
      | None \<Rightarrow> if c = d then Some [c] else None)"

definition fence_open :: jsstring where
  "fence_open = js ''```json''"

definition fence_close :: jsstring where
  "fence_close = js ''```''"

definition lbrace :: code_unit where
  "lbrace = of_char CHR ''{''"

definition rbrace :: code_unit where
  "rbrace = of_char CHR ''}''"

text \<open>\<^verbatim>\<open>/```json([\s\S]*?)```/\<close> anchored at the start of \<open>s\<close>; the result is group 1.\<close>

definition match_fence_at :: "jsstring \<Rightarrow> jsstring option" where
  "match_fence_at s =
     (if prefix fence_open s then lazy_until fence_close (drop (length fence_open) s)
      else None)"

text \<open>\<^verbatim>\<open>/{[\s\S]*}/\<close> anchored at the start of \<open>s\<close>; the result is the whole match.\<close>

definition match_curly_at :: "jsstring \<Rightarrow> jsstring option" where
  "match_curly_at s =
     (case s of
        [] \<Rightarrow> None
      | c # cs \<Rightarrow> if c = lbrace then map_option ((#) c) (greedy_until rbrace cs) else None)"

text \<open>
  \<^verbatim>\<open>
  function extractJSON(text: string): string | null {
    const match = text.match(/```json([\s\S]*?)```/);
    if (match) return match[1].trim();
    const curlyMatch = text.match(/{[\s\S]*}/);
    return curlyMatch ? curlyMatch[0] : null;
  }
  \<close>
  \<open>None\<close> is \<^verbatim>\<open>null\<close>.
\<close>

definition extractJSON :: "jsstring \<Rightarrow> jsstring option" where
  "extractJSON text =
     (case search match_fence_at text of
        Some g \<Rightarrow> Some (trim g)
      | None \<Rightarrow> search match_curly_at text)"

text \<open>
  What the specification speaks of. A text has a fenced JSON block when an opening fence
  \<^verbatim>\<open>```json\<close> is followed, somewhere later, by a closing fence; all that stands between the
  two is the interior of the block, as the regular expression has it (a line break after
  the label is not required, and the rest of a longer label such as \<^verbatim>\<open>jsonc\<close> belongs to the
  interior). A text has a curly span when some \<^verbatim>\<open>{\<close> is followed, somewhere later, by a
  \<^verbatim>\<open>}\<close>.
\<close>

definition has_fenced_block :: "jsstring \<Rightarrow> bool" where
  "has_fenced_block text =
     (\<exists>pre body post. text = pre @ fence_open @ body @ fence_close @ post)"

definition has_curly_span :: "jsstring \<Rightarrow> bool" where
  "has_curly_span text = (\<exists>a b c. text = a @ [lbrace] @ b @ [rbrace] @ c)"

section \<open>Numbers\<close>

text \<open>
  A JavaScript number is an IEEE 754 binary64 value: \<^verbatim>\<open>NaN\<close>, one of the two infinities, or
  a finite value, which is a rational number. An arithmetic operation on finite values
  takes the exact result and rounds it to binary64 (\<open>round64\<close> below). Zero has no sign; a
  zero divisor is taken as \<^verbatim>\<open>+0\<close>, the only zero the program divides by (the difference of
  two equal time stamps).
\<close>

datatype number = NaN | Infinity | NegInfinity | Num rat

fun signum :: "number \<Rightarrow> rat" where
  "signum NaN = 0"
| "signum Infinity = 1"
| "signum NegInfinity = - 1"
| "signum (Num x) = sgn x"

definition signed_infinity :: "rat \<Rightarrow> number" where
  "signed_infinity s = (if 0 < s then Infinity else if s < 0 then NegInfinity else NaN)"

subsection \<open>Rounding to binary64\<close>

text \<open>
  The number of binary digits of a natural number, and with it the binary exponent of a
  positive rational: the \<open>e\<close> with \<open>2\<^sup>e \<le> x < 2\<^sup>e\<^sup>+\<^sup>1\<close>.
\<close>

fun bit_length :: "nat \<Rightarrow> nat" where
  "bit_length n = (if n = 0 then 0 else Suc (bit_length (n div 2)))"

declare bit_length.simps [simp del]

definition exponent2 :: "rat \<Rightarrow> int" where
  "exponent2 x =
     (if 1 \<le> x then int (bit_length (nat \<lfloor>x\<rfloor>)) - 1
      else - int (bit_length (nat (\<lceil>1 / x\<rceil> - 1))))"

text \<open>
  The spacing of the binary64 values around \<open>x\<close>: 53 significant bits for a normal value
  (exponent at least \<open>-1022\<close>), and the fixed spacing \<open>2\<^sup>-\<^sup>1\<^sup>0\<^sup>7\<^sup>4\<close> of the subnormal values
  below.
\<close>

definition quantum :: "rat \<Rightarrow> rat" where
  "quantum x = 2 powi (max (exponent2 \<bar>x\<bar>) (- 1022) - 52)"

text \<open>The nearest whole number, a tie going to the even one.\<close>

definition round_half_even :: "rat \<Rightarrow> int" where
  "round_half_even t =
     (let f = \<lfloor>t\<rfloor>; d = t - of_int f
      in if d < 1 / 2 then f
         else if 1 / 2 < d then f + 1
         else if even f then f else f + 1)"

text \<open>
  The binary64 value of a rational: the nearest multiple of the spacing, ties to even, and
  an infinity when that multiple reaches \<open>2\<^sup>1\<^sup>0\<^sup>2\<^sup>4\<close>.
\<close>

definition round64 :: "rat \<Rightarrow> number" where
  "round64 x =
     (if x = 0 then Num 0
      else
        let y = of_int (round_half_even (x / quantum x)) * quantum x
        in if 2 ^ 1024 \<le> \<bar>y\<bar> then signed_infinity y else Num y)"

subsection \<open>Arithmetic\<close>

text \<open>\<^verbatim>\<open>a * b\<close>: an infinity times zero is \<^verbatim>\<open>NaN\<close>.\<close>

fun num_mul :: "number \<Rightarrow> number \<Rightarrow> number" where
  "num_mul NaN b = NaN"
| "num_mul a NaN = NaN"
| "num_mul (Num x) (Num y) = round64 (x * y)"
| "num_mul a b = signed_infinity (signum a * signum b)"

text \<open>
  \<^verbatim>\<open>a / b\<close>: a finite value over zero is an infinity of its sign, zero over zero and an
  infinity over an infinity are \<^verbatim>\<open>NaN\<close>, a finite value over an infinity is zero.
\<close>

fun num_div :: "number \<Rightarrow> number \<Rightarrow> number" where
  "num_div NaN b = NaN"
| "num_div a NaN = NaN"
| "num_div (Num x) (Num y) = (if y = 0 then signed_infinity (sgn x) else round64 (x / y))"
| "num_div (Num x) b = Num 0"
| "num_div a (Num y) = signed_infinity (signum a * (if y < 0 then - 1 else 1))"
| "num_div a b = NaN"

text \<open>\<^verbatim>\<open>a + b\<close>: the sum of the two opposite infinities is \<^verbatim>\<open>NaN\<close>.\<close>

fun num_add :: "number \<Rightarrow> number \<Rightarrow> number" where
  "num_add NaN b = NaN"
| "num_add a NaN = NaN"
| "num_add (Num x) (Num y) = round64 (x + y)"
| "num_add Infinity NegInfinity = NaN"
| "num_add NegInfinity Infinity = NaN"
| "num_add (Num x) b = b"
| "num_add a b = a"

text \<open>\<^verbatim>\<open>a - b\<close> is the sum of \<open>a\<close> and the negated \<open>b\<close>; negation is exact.\<close>

fun num_neg :: "number \<Rightarrow> number" where
  "num_neg NaN = NaN"
| "num_neg Infinity = NegInfinity"
| "num_neg NegInfinity = Infinity"
| "num_neg (Num x) = Num (- x)"

definition num_sub :: "number \<Rightarrow> number \<Rightarrow> number" where
  "num_sub a b = num_add a (num_neg b)"

text \<open>
  \<^verbatim>\<open>a % b\<close>: the remainder has the sign of the dividend (the quotient is truncated
  towards zero); it is \<^verbatim>\<open>NaN\<close> for an infinite dividend or a zero divisor, and the dividend
  itself for an infinite divisor. The remainder of two binary64 values is a binary64 value,
  so nothing is rounded.
\<close>

definition truncate :: "rat \<Rightarrow> int" where
  "truncate q = (if 0 \<le> q then \<lfloor>q\<rfloor> else \<lceil>q\<rceil>)"

fun num_rem :: "number \<Rightarrow> number \<Rightarrow> number" where
  "num_rem NaN b = NaN"
| "num_rem a NaN = NaN"
| "num_rem (Num x) (Num y) = (if y = 0 then NaN else Num (x - y * of_int (truncate (x / y))))"
| "num_rem (Num x) b = Num x"
| "num_rem a b = NaN"

text \<open>\<^verbatim>\<open>a < b\<close>: false when either side is \<^verbatim>\<open>NaN\<close>.\<close>

fun num_lt :: "number \<Rightarrow> number \<Rightarrow> bool" where
  "num_lt NaN b = False"
| "num_lt a NaN = False"
| "num_lt (Num x) (Num y) = (x < y)"
| "num_lt a NegInfinity = False"
| "num_lt Infinity b = False"
| "num_lt a b = True"

text \<open>\<^verbatim>\<open>Math.max(a, b)\<close>: \<^verbatim>\<open>NaN\<close> when either argument is.\<close>

fun Math_max :: "number \<Rightarrow> number \<Rightarrow> number" where
  "Math_max NaN b = NaN"
| "Math_max a NaN = NaN"
| "Math_max a b = (if num_lt a b then b else a)"

text \<open>
  \<^verbatim>\<open>Math.ceil\<close>, \<^verbatim>\<open>Math.floor\<close> and \<^verbatim>\<open>Math.round\<close> leave \<^verbatim>\<open>NaN\<close> and the infinities as
  they are; \<^verbatim>\<open>Math.round\<close> rounds a half up. Their results on binary64 values are binary64
  values, so nothing is rounded.
\<close>

fun Math_ceil :: "number \<Rightarrow> number" where
  "Math_ceil (Num x) = Num (of_int \<lceil>x\<rceil>)"
| "Math_ceil a = a"

fun Math_floor :: "number \<Rightarrow> number" where
  "Math_floor (Num x) = Num (of_int \<lfloor>x\<rfloor>)"
| "Math_floor a = a"

fun Math_round :: "number \<Rightarrow> number" where
  "Math_round (Num x) = Num (of_int \<lfloor>x + 1 / 2\<rfloor>)"
| "Math_round a = a"

subsection \<open>Numbers and strings\<close>

definition isDigit :: "code_unit \<Rightarrow> bool" where
  "isDigit c = (0x30 \<le> c \<and> c \<le> 0x39)"

definition digit_value :: "code_unit \<Rightarrow> nat" where
  "digit_value c = unat c - 48"

definition digits_value :: "jsstring \<Rightarrow> nat" where
  "digits_value ds = foldl (\<lambda>a c. 10 * a + digit_value c) 0 ds"

fun nat_to_string :: "nat \<Rightarrow> jsstring" where
  "nat_to_string n =
     (if n < 10 then [of_nat (48 + n)]
      else nat_to_string (n div 10) @ [of_nat (48 + n mod 10)])"

declare nat_to_string.simps [simp del]

definition int_to_string :: "int \<Rightarrow> jsstring" where
  "int_to_string i = (if i < 0 then js ''-'' @ nat_to_string (nat (- i)) else nat_to_string (nat i))"

text \<open>
  The string of a number, as a template literal inserts it (\<^verbatim>\<open>Number::toString\<close>). A whole
  number of magnitude below \<open>2\<^sup>5\<^sup>3\<close> is written with all its decimal digits. For every other
  finite value the host chooses the shortest decimal that reads back as the same binary64
  value, in exponent notation from \<open>10\<^sup>2\<^sup>1\<close> on; that part of the host is the parameter
  \<open>host_string\<close>.
\<close>

fun number_to_string :: "(rat \<Rightarrow> jsstring) \<Rightarrow> number \<Rightarrow> jsstring" where
  "number_to_string host_string NaN = js ''NaN''"
| "number_to_string host_string Infinity = js ''Infinity''"
| "number_to_string host_string NegInfinity = js ''-Infinity''"
| "number_to_string host_string (Num x) =
     (if x = of_int \<lfloor>x\<rfloor> \<and> \<bar>x\<bar> < 2 ^ 53 then int_to_string \<lfloor>x\<rfloor> else host_string x)"

text \<open>
  \<^verbatim>\<open>parseFloat\<close>: leading white space is skipped, then the longest prefix that is a decimal
  literal is read: an optional sign, then \<^verbatim>\<open>Infinity\<close>, or digits with an optional
  fraction (at least one digit before or after the point) and an optional exponent (read
  only when it has a digit). Without such a prefix the result is \<^verbatim>\<open>NaN\<close>; otherwise it is
  the binary64 value of the decimal read, correctly rounded whatever the number of digits
  (as V8 does; the standard allows an engine to drop the digits after the twentieth).
\<close>

definition exponent_part :: "jsstring \<Rightarrow> int" where
  "exponent_part r =
     (case r of
        [] \<Rightarrow> 0
      | c # cs \<Rightarrow>
          if c = of_char CHR ''e'' \<or> c = of_char CHR ''E'' then
            (case cs of
               [] \<Rightarrow> 0
             | d # ds \<Rightarrow>
                 if d = of_char CHR ''-'' then - int (digits_value (takeWhile isDigit ds))
                 else if d = of_char CHR ''+'' then int (digits_value (takeWhile isDigit ds))
                 else int (digits_value (takeWhile isDigit cs)))
          else 0)"

definition scale10 :: "rat \<Rightarrow> int \<Rightarrow> rat" where
  "scale10 m e = (if 0 \<le> e then m * 10 ^ nat e else m / 10 ^ nat (- e))"

definition parse_unsigned :: "jsstring \<Rightarrow> number" where
  "parse_unsigned s =
     (if prefix (js ''Infinity'') s then Infinity
      else
        let ip = takeWhile isDigit s;
            r1 = dropWhile isDigit s;
            fp = (case r1 of [] \<Rightarrow> [] | c # cs \<Rightarrow>
                    if c = of_char CHR ''.'' then takeWhile isDigit cs else []);
            r2 = (case r1 of [] \<Rightarrow> [] | c # cs \<Rightarrow>
                    if c = of_char CHR ''.'' then dropWhile isDigit cs else r1)
        in if ip = [] \<and> fp = [] then NaN
           else round64 (scale10 (of_nat (digits_value (ip @ fp)) / 10 ^ length fp)
                           (exponent_part r2)))"

definition parseFloat :: "jsstring \<Rightarrow> number" where
  "parseFloat input =
     (case dropWhile isWhiteSpace input of
        [] \<Rightarrow> NaN
      | c # cs \<Rightarrow>
          if c = of_char CHR ''-'' then num_mul (Num (- 1)) (parse_unsigned cs)
          else if c = of_char CHR ''+'' then parse_unsigned cs
          else parse_unsigned (c # cs))"

section \<open>Values, errors and the remote model (geminiService.ts)\<close>

text \<open>
  The values that \<^verbatim>\<open>JSON.parse\<close> and property reads produce. An object is the list of its
  own properties, each key once.
\<close>

datatype jsval =
    JUndefined
  | JNull
  | JBool bool
  | JNumber number
  | JString jsstring
  | JArray "jsval list"
  | JObject "(jsstring \<times> jsval) list"

text \<open>
  What can be thrown: a \<^verbatim>\<open>TypeError\<close> of the language, the \<^verbatim>\<open>SyntaxError\<close> of
  \<^verbatim>\<open>JSON.parse\<close>, and whatever the host raises (network, file, client library).
\<close>

datatype error = TypeError | SyntaxError | HostError jsstring

text \<open>
  A computation that may throw yields \<open>Inl\<close> of the error or \<open>Inr\<close> of its value; for an
  \<^verbatim>\<open>async\<close> function \<open>Inl\<close> is the rejection of its promise. \<open>and_then\<close> is sequencing,
  \<open>try_catch\<close> is \<^verbatim>\<open>try { ... } catch { ... }\<close>.
\<close>

definition and_then :: "error + 'a \<Rightarrow> ('a \<Rightarrow> error + 'b) \<Rightarrow> error + 'b" where
  "and_then m f = (case m of Inl e \<Rightarrow> Inl e | Inr v \<Rightarrow> f v)"

definition try_catch :: "error + 'a \<Rightarrow> (error \<Rightarrow> error + 'a) \<Rightarrow> error + 'a" where
  "try_catch body handler = (case body of Inl e \<Rightarrow> handler e | Inr v \<Rightarrow> Inr v)"

text \<open>The truth value of a value in a condition.\<close>

fun truthy :: "jsval \<Rightarrow> bool" where
  "truthy JUndefined = False"
| "truthy JNull = False"
| "truthy (JBool b) = b"
| "truthy (JNumber n) = (case n of NaN \<Rightarrow> False | Num x \<Rightarrow> x \<noteq> 0 | _ \<Rightarrow> True)"
| "truthy (JString s) = (s \<noteq> [])"
| "truthy (JArray xs) = True"
| "truthy (JObject kvs) = True"

text \<open>
  The property read \<^verbatim>\<open>v.k\<close>, for the names the program reads (\<^verbatim>\<open>requirements\<close>,
  \<^verbatim>\<open>totalSize\<close>, \<^verbatim>\<open>totalEstimatedTime\<close>), which no prototype defines: a \<^verbatim>\<open>TypeError\<close> on
  \<^verbatim>\<open>null\<close> and \<^verbatim>\<open>undefined\<close>, the own property of an object, \<^verbatim>\<open>undefined\<close> otherwise.
\<close>

fun get_prop :: "jsval \<Rightarrow> jsstring \<Rightarrow> error + jsval" where
  "get_prop JUndefined k = Inl TypeError"
| "get_prop JNull k = Inl TypeError"
| "get_prop (JObject kvs) k = Inr (case map_of kvs k of Some v \<Rightarrow> v | None \<Rightarrow> JUndefined)"
| "get_prop v k = Inr JUndefined"

fun isArray :: "jsval \<Rightarrow> bool" where
  "isArray (JArray xs) = True"
| "isArray v = False"

text \<open>
  \<^verbatim>\<open>JSON.parse\<close> belongs to the host; the operations take it as a parameter, \<open>None\<close> being
  its \<^verbatim>\<open>SyntaxError\<close>. The remote model is a parameter too: from the prompt to the text of
  the response, or to the error raised on the way (\<^verbatim>\<open>getGenerativeModel\<close>,
  \<^verbatim>\<open>generateContent\<close>, \<^verbatim>\<open>result.response\<close>, \<^verbatim>\<open>response.text()\<close>). \<^verbatim>\<open>genAI\<close> is \<open>None\<close> when no
  API key is configured.
\<close>

type_synonym json_parser = "jsstring \<Rightarrow> jsval option"
type_synonym remote_model = "jsstring \<Rightarrow> error + jsstring"

subsection \<open>Compute capabilities\<close>

datatype level = Low | Medium | High | Extreme
datatype architecture_kind = X86_64 | Arm64 | Multi
datatype environment_kind = Local | Ci_cd | Cloud

record ComputeCapabilities =
  cpu :: level
  memory :: level
  architecture :: architecture_kind
  environment :: environment_kind

fun level_name :: "level \<Rightarrow> jsstring" where
  "level_name Low = js ''low''"
| "level_name Medium = js ''medium''"
| "level_name High = js ''high''"
| "level_name Extreme = js ''extreme''"

fun architecture_name :: "architecture_kind \<Rightarrow> jsstring" where
  "architecture_name X86_64 = js ''x86_64''"
| "architecture_name Arm64 = js ''arm64''"
| "architecture_name Multi = js ''multi''"

fun environment_name :: "environment_kind \<Rightarrow> jsstring" where
  "environment_name Local = js ''local''"
| "environment_name Ci_cd = js ''ci_cd''"
| "environment_name Cloud = js ''cloud''"

subsection \<open>Prompts\<close>

text \<open>The template literals of the three operations, line by line.\<close>

definition dquote :: code_unit where
  "dquote = 0x22"

fun join_lines :: "jsstring list \<Rightarrow> jsstring" where
  "join_lines [] = []"
| "join_lines [l] = l"
| "join_lines (l # ls) = l @ [0xA] @ join_lines ls"

definition dockerfile_prompt :: "jsstring \<Rightarrow> jsstring" where
  "dockerfile_prompt dockerfileContent =
     join_lines
       [[],
        js ''    Analyze this Dockerfile with focus on compilation times and compute requirements:'',
        js ''    '' @ dockerfileContent,
        js ''    '',
        js ''    For each instruction, analyze:'',
        js ''    1. The exact instruction'',
        js ''    2. A clear description of what it does'',
        js ''    3. The impact on image size or build time'',
        js ''    4. Estimated compilation time (if applicable)'',
        js ''    5. Compute intensity level (low/medium/high/extreme)'',
        js ''    '',
        js ''    Pay special attention to:'',
        js ''    - Native compilation steps (gcc, make, cargo build, etc.)'',
        js ''    - Multi-stage builds and their complexity'',
        js ''    - Package installations that require compilation'',
        js ''    - Architecture-specific builds'',
        js ''    - Parallel build opportunities'',
        js ''    '',
        js ''    Return as JSON array with objects containing: instruction, description, impact, compilationTime, computeIntensity'',
        js ''    '']"

definition requirements_prompt :: "jsstring \<Rightarrow> jsstring" where
  "requirements_prompt requirementsContent =
     join_lines
       [[],
        js ''    Analyze this requirements.txt file focusing on compilation requirements and build times:'',
        js ''    '' @ requirementsContent,
        js ''    '',
        js ''    For each package, analyze:'',
        js ''    1. The package name with version'',
        js ''    2. Estimated download size'',
        js ''    3. Brief description of what the package does'',
        js ''    4. Whether compilation from source is required'',
        js ''    5. Estimated build time if compilation is needed'',
        js ''    '',
        js ''    Consider packages that commonly require compilation:'',
        js ''    - NumPy, SciPy, Pandas (C extensions)'',
        js ''    - Pillow (image processing)'',
        js ''    - lxml (XML processing)'',
        js ''    - Cryptography libraries'',
        js ''    - Machine learning libraries (TensorFlow, PyTorch)'',
        js ''    '',
        js ''    Return as JSON: { requirements: [{ package, estimatedSize, description, compilationRequired, buildTime }], totalSize: '' @ [dquote] @ js ''XX.X MB'' @ [dquote] @ js '' }'',
        js ''    '']"

definition compilation_prompt :: "jsstring \<Rightarrow> jsstring \<Rightarrow> ComputeCapabilities \<Rightarrow> jsstring" where
  "compilation_prompt dockerfileContent requirementsContent computeCapabilities =
     join_lines
       [[],
        js ''    Analyze the compilation time for this Docker build considering the compute capabilities:'',
        js ''    '',
        js ''    DOCKERFILE:'',
        js ''    '' @ dockerfileContent,
        js ''    '',
        js ''    REQUIREMENTS:'',
        js ''    '' @ requirementsContent,
        js ''    '',
        js ''    COMPUTE CAPABILITIES:'',
        js ''    - CPU: '' @ level_name (cpu computeCapabilities),
        js ''    - Memory: '' @ level_name (memory computeCapabilities),
        js ''    - Architecture: '' @ architecture_name (architecture computeCapabilities),
        js ''    - Environment: '' @ environment_name (environment computeCapabilities),
        js ''    '',
        js ''    Provide analysis including:'',
        js ''    1. Total estimated compilation time'',
        js ''    2. Main bottlenecks that slow down the build'',
        js ''    3. Optimization recommendations'',
        js ''    4. Whether steps can be parallelized'',
        js ''    '',
        js ''    Consider:'',
        js ''    - Multi-architecture builds take 2-5x longer'',
        js ''    - CI/CD environments often have limited CPU/memory'',
        js ''    - Native compilation vs pre-built wheels'',
        js ''    - Docker layer caching opportunities'',
        js ''    - Build context size impact'',
        js ''    '',
        js ''    Return as JSON: { totalEstimatedTime, bottlenecks: [], recommendations: [], parallelizable: boolean }'',
        js ''    '']"

subsection \<open>Fallback data\<close>

definition DockerStep :: "string \<Rightarrow> string \<Rightarrow> string \<Rightarrow> string \<Rightarrow> string \<Rightarrow> jsval" where
  "DockerStep i d m t c =
     JObject [(js ''instruction'', JString (js i)),
              (js ''description'', JString (js d)),
              (js ''impact'', JString (js m)),
              (js ''compilationTime'', JString (js t)),
              (js ''computeIntensity'', JString (js c))]"

definition getFallbackDockerAnalysis :: jsval where
  "getFallbackDockerAnalysis =
     JArray
       [DockerStep ''FROM python:3.9-slim''
          ''Sets the base image to Python 3.9 slim version''
          ''Downloads ~45MB base image'' ''30s'' ''low'',
        DockerStep ''WORKDIR /app''
          ''Creates and sets working directory to /app''
          ''Minimal impact, creates directory structure'' ''<1s'' ''low'',
        DockerStep ''COPY requirements.txt .''
          ''Copies requirements file to container''
          ''Small file copy, ~1KB typically'' ''<1s'' ''low'',
        DockerStep ''RUN pip install -r requirements.txt''
          ''Installs Python dependencies''
          ''Variable impact based on requirements'' ''5-15m'' ''high'',
        DockerStep ''COPY . .''
          ''Copies application source code''
          ''Depends on application size'' ''10s'' ''low'',
        DockerStep ''EXPOSE 8000''
          ''Exposes port 8000 for the application''
          ''No storage impact, configures networking'' ''<1s'' ''low'',
        DockerStep (''CMD ['' @ [CHR 0x22] @ ''python'' @ [CHR 0x22] @ '', ''
                      @ [CHR 0x22] @ ''app.py'' @ [CHR 0x22] @ '']'')
          ''Sets the default command to run the application''
          ''No additional impact, sets runtime behavior'' ''<1s'' ''low'']"

definition RequirementInfo :: "string \<Rightarrow> string \<Rightarrow> string \<Rightarrow> bool \<Rightarrow> string \<Rightarrow> jsval" where
  "RequirementInfo p e d c b =
     JObject [(js ''package'', JString (js p)),
              (js ''estimatedSize'', JString (js e)),
              (js ''description'', JString (js d)),
              (js ''compilationRequired'', JBool c),
              (js ''buildTime'', JString (js b))]"

definition getFallbackRequirementsAnalysis :: jsval where
  "getFallbackRequirementsAnalysis =
     JObject
       [(js ''requirements'',
         JArray
           [RequirementInfo ''flask==2.3.3'' ''2.1 MB''
              ''Web framework for Python applications'' False ''N/A'',
            RequirementInfo ''numpy==1.24.3'' ''15.8 MB''
              ''Scientific computing library'' True ''3-8m'',
            RequirementInfo ''pandas==2.0.3'' ''28.4 MB''
              ''Data manipulation and analysis library'' True ''5-12m'',
            RequirementInfo ''requests==2.31.0'' ''1.5 MB''
              ''HTTP library for API requests'' False ''N/A'',
            RequirementInfo ''sqlalchemy==2.0.20'' ''3.2 MB''
              ''Database toolkit and ORM'' False ''N/A'']),
        (js ''totalSize'', JString (js ''51.0 MB''))]"

definition getFallbackCompilationAnalysis :: jsval where
  "getFallbackCompilationAnalysis =
     JObject
       [(js ''totalEstimatedTime'', JString (js ''8-15 minutes'')),
        (js ''bottlenecks'',
         JArray
           [JString (js ''NumPy compilation from source (3-8 minutes)''),
            JString (js ''Pandas native extensions (5-12 minutes)''),
            JString (js ''Single-threaded pip install process''),
            JString (js ''No build cache utilization'')]),
        (js ''recommendations'',
         JArray
           [JString (js ''Use multi-stage builds to cache compilation steps''),
            JString (js ''Consider using pre-built wheels when available''),
            JString (js ''Implement Docker layer caching in CI/CD''),
            JString (js ''Use BuildKit for parallel builds''),
            JString (js ''Pin exact versions to improve cache hits'')]),
        (js ''parallelizable'', JBool True)]"

subsection \<open>The three analysis operations\<close>

text \<open>\<^verbatim>\<open>const jsonText = extractJSON(text) || text;\<close> (the empty string is falsy).\<close>

definition jsonText :: "jsstring \<Rightarrow> jsstring" where
  "jsonText text =
     (case extractJSON text of
        None \<Rightarrow> text
      | Some j \<Rightarrow> if j = [] then text else j)"

text \<open>
  \<^verbatim>\<open>
  export const analyzeDockerfile = async (dockerfileContent) => {
    if (!genAI) { return getFallbackDockerAnalysis(); }
    try {
      const model = genAI.getGenerativeModel({ model: 'gemini-2.0-flash' });
      const prompt = `...`;
      const result = await model.generateContent(prompt);
      const response = await result.response;
      const text = response.text();
      const jsonText = extractJSON(text) || text;
      try {
        const parsed = JSON.parse(jsonText);
        return Array.isArray(parsed) ? parsed : getFallbackDockerAnalysis();
      } catch { return getFallbackDockerAnalysis(); }
    } catch (error) {
      console.error('Error analyzing Dockerfile with Gemini:', error);
      return getFallbackDockerAnalysis();
    }
  };
  \<close>
  The other two operations differ in the prompt, the fallback and the test of the parsed
  value. The writes to the console are left out.
\<close>

definition JSON_parse :: "json_parser \<Rightarrow> jsstring \<Rightarrow> error + jsval" where
  "JSON_parse parser s = (case parser s of None \<Rightarrow> Inl SyntaxError | Some v \<Rightarrow> Inr v)"

definition analyzeDockerfile ::
    "json_parser \<Rightarrow> remote_model option \<Rightarrow> jsstring \<Rightarrow> error + jsval" where
  "analyzeDockerfile parser genAI dockerfileContent =
     (case genAI of
        None \<Rightarrow> Inr getFallbackDockerAnalysis
      | Some model \<Rightarrow>
          try_catch
            (and_then (model (dockerfile_prompt dockerfileContent)) (\<lambda>text.
               try_catch
                 (and_then (JSON_parse parser (jsonText text)) (\<lambda>parsed.
                    Inr (if isArray parsed then parsed else getFallbackDockerAnalysis)))
                 (\<lambda>e. Inr getFallbackDockerAnalysis)))
            (\<lambda>e. Inr getFallbackDockerAnalysis))"

text \<open>
  \<^verbatim>\<open>return parsed.requirements && parsed.totalSize ? parsed : getFallbackRequirementsAnalysis();\<close>
\<close>

definition analyzeRequirements ::
    "json_parser \<Rightarrow> remote_model option \<Rightarrow> jsstring \<Rightarrow> error + jsval" where
  "analyzeRequirements parser genAI requirementsContent =
     (case genAI of
        None \<Rightarrow> Inr getFallbackRequirementsAnalysis
      | Some model \<Rightarrow>
          try_catch
            (and_then (model (requirements_prompt requirementsContent)) (\<lambda>text.
               try_catch
                 (and_then (JSON_parse parser (jsonText text)) (\<lambda>parsed.
                  and_then (get_prop parsed (js ''requirements'')) (\<lambda>r.
                    if truthy r then
                      and_then (get_prop parsed (js ''totalSize'')) (\<lambda>t.
                        Inr (if truthy t then parsed else getFallbackRequirementsAnalysis))
                    else Inr getFallbackRequirementsAnalysis)))
                 (\<lambda>e. Inr getFallbackRequirementsAnalysis)))
            (\<lambda>e. Inr getFallbackRequirementsAnalysis))"

text \<open>
  \<^verbatim>\<open>return parsed.totalEstimatedTime ? parsed : getFallbackCompilationAnalysis();\<close>
\<close>

definition analyzeCompilationTime ::
    "json_parser \<Rightarrow> remote_model option \<Rightarrow> jsstring \<Rightarrow> jsstring \<Rightarrow> ComputeCapabilities
       \<Rightarrow> error + jsval" where
  "analyzeCompilationTime parser genAI dockerfileContent requirementsContent computeCapabilities =
     (case genAI of
        None \<Rightarrow> Inr getFallbackCompilationAnalysis
      | Some model \<Rightarrow>
          try_catch
            (and_then
               (model (compilation_prompt dockerfileContent requirementsContent
                         computeCapabilities)) (\<lambda>text.
               try_catch
                 (and_then (JSON_parse parser (jsonText text)) (\<lambda>parsed.
                  and_then (get_prop parsed (js ''totalEstimatedTime'')) (\<lambda>t.
                    Inr (if truthy t then parsed else getFallbackCompilationAnalysis))))
                 (\<lambda>e. Inr getFallbackCompilationAnalysis)))
            (\<lambda>e. Inr getFallbackCompilationAnalysis))"

section \<open>The results record and the operations of the application component\<close>

text \<open>
  \<^verbatim>\<open>
  interface AnalysisResults {
    dockerSteps?: DockerStep[];      requirements?: RequirementInfo[];
    totalSize?: string;              internetSpeed?: number;
    estimatedTime?: string;          compilationAnalysis?: CompilationAnalysisType;
  }
  \<close>
  A field is \<open>None\<close> when the object does not have it. The fields filled from a parsed
  response hold whatever value the response gave: the interface is not checked when the
  program runs.
\<close>

record AnalysisResults =
  dockerSteps :: "jsval option"
  requirements :: "jsval option"
  totalSize :: "jsval option"
  internetSpeed :: "number option"
  estimatedTime :: "jsstring option"
  compilationAnalysis :: "jsval option"

text \<open>The empty object \<^verbatim>\<open>{}\<close>, and the spread \<^verbatim>\<open>{ ...prev, ...newResults }\<close>.\<close>

definition no_results :: AnalysisResults where
  "no_results =
     \<lparr>dockerSteps = None, requirements = None, totalSize = None,
      internetSpeed = None, estimatedTime = None, compilationAnalysis = None\<rparr>"

definition or_else :: "'a option \<Rightarrow> 'a option \<Rightarrow> 'a option" where
  "or_else x y = (case x of Some v \<Rightarrow> Some v | None \<Rightarrow> y)"

definition spread :: "AnalysisResults \<Rightarrow> AnalysisResults \<Rightarrow> AnalysisResults" where
  "spread prev newResults =
     \<lparr>dockerSteps = or_else (dockerSteps newResults) (dockerSteps prev),
      requirements = or_else (requirements newResults) (requirements prev),
      totalSize = or_else (totalSize newResults) (totalSize prev),
      internetSpeed = or_else (internetSpeed newResults) (internetSpeed prev),
      estimatedTime = or_else (estimatedTime newResults) (estimatedTime prev),
      compilationAnalysis = or_else (compilationAnalysis newResults) (compilationAnalysis prev)\<rparr>"

text \<open>
  A selected file is what its \<^verbatim>\<open>text()\<close> settles to; \<open>None\<close> is \<^verbatim>\<open>null\<close>, no file selected.
\<close>

type_synonym selected_file = "error + jsstring"

text \<open>
  \<^verbatim>\<open>
  const analyzeFiles = async () => {
    if (!dockerFile && !requirementsFile) return;
    setIsAnalyzing(true);
    const newResults: AnalysisResults = {};
    try {
      if (dockerFile) {
        const dockerContent = await dockerFile.text();
        const dockerSteps = await analyzeDockerfile(dockerContent);
        newResults.dockerSteps = dockerSteps;
      }
      if (requirementsFile) {
        const requirementsContent = await requirementsFile.text();
        const requirementsAnalysis = await analyzeRequirements(requirementsContent);
        newResults.requirements = requirementsAnalysis.requirements;
        newResults.totalSize = requirementsAnalysis.totalSize;
      }
      setResults(prev => ({ ...prev, ...newResults }));
    } catch (error) { console.error('Analysis error:', error); }
    finally { setIsAnalyzing(false); }
  };
  \<close>
  Each operation is given as the change it makes to the results record \<open>prev\<close>: the
  function handed to \<^verbatim>\<open>setResults\<close>, or no change when \<^verbatim>\<open>setResults\<close> is not reached. The
  busy flags are not part of the record.
\<close>

definition analyzeFiles_docker ::
    "json_parser \<Rightarrow> remote_model option \<Rightarrow> selected_file option \<Rightarrow> AnalysisResults
       \<Rightarrow> error + AnalysisResults" where
  "analyzeFiles_docker parser genAI dockerFile newResults =
     (case dockerFile of
        None \<Rightarrow> Inr newResults
      | Some f \<Rightarrow>
          and_then f (\<lambda>dockerContent.
          and_then (analyzeDockerfile parser genAI dockerContent) (\<lambda>steps.
            Inr (newResults\<lparr>dockerSteps := Some steps\<rparr>))))"

definition analyzeFiles_requirements ::
    "json_parser \<Rightarrow> remote_model option \<Rightarrow> selected_file option \<Rightarrow> AnalysisResults
       \<Rightarrow> error + AnalysisResults" where
  "analyzeFiles_requirements parser genAI requirementsFile newResults =
     (case requirementsFile of
        None \<Rightarrow> Inr newResults
      | Some f \<Rightarrow>
          and_then f (\<lambda>requirementsContent.
          and_then (analyzeRequirements parser genAI requirementsContent) (\<lambda>requirementsAnalysis.
          and_then (get_prop requirementsAnalysis (js ''requirements'')) (\<lambda>r.
          and_then (get_prop requirementsAnalysis (js ''totalSize'')) (\<lambda>t.
            Inr (newResults\<lparr>requirements := Some r, totalSize := Some t\<rparr>))))))"

definition analyzeFiles ::
    "json_parser \<Rightarrow> remote_model option \<Rightarrow> selected_file option \<Rightarrow> selected_file option
       \<Rightarrow> AnalysisResults \<Rightarrow> AnalysisResults" where
  "analyzeFiles parser genAI dockerFile requirementsFile prev =
     (if dockerFile = None \<and> requirementsFile = None then prev
      else
        case and_then (analyzeFiles_docker parser genAI dockerFile no_results)
               (analyzeFiles_requirements parser genAI requirementsFile) of
          Inr newResults \<Rightarrow> spread prev newResults
        | Inl e \<Rightarrow> prev)"

text \<open>
  \<^verbatim>\<open>
  const analyzeCompilation = async () => {
    if (!dockerFile && !requirementsFile) return;
    setIsAnalyzingCompilation(true);
    try {
      const dockerContent = dockerFile ? await dockerFile.text() : '';
      const requirementsContent = requirementsFile ? await requirementsFile.text() : '';
      const compilationAnalysis = await analyzeCompilationTime(
        dockerContent, requirementsContent, computeCapabilities);
      setResults(prev => ({ ...prev, compilationAnalysis }));
    } catch (error) { console.error('Compilation analysis error:', error); }
    finally { setIsAnalyzingCompilation(false); }
  };
  \<close>
\<close>

definition text_or_empty :: "selected_file option \<Rightarrow> error + jsstring" where
  "text_or_empty f = (case f of None \<Rightarrow> Inr [] | Some t \<Rightarrow> t)"

definition analyzeCompilation ::
    "json_parser \<Rightarrow> remote_model option \<Rightarrow> selected_file option \<Rightarrow> selected_file option
       \<Rightarrow> ComputeCapabilities \<Rightarrow> AnalysisResults \<Rightarrow> AnalysisResults" where
  "analyzeCompilation parser genAI dockerFile requirementsFile computeCapabilities prev =
     (if dockerFile = None \<and> requirementsFile = None then prev
      else
        case and_then (text_or_empty dockerFile) (\<lambda>dockerContent.
             and_then (text_or_empty requirementsFile) (\<lambda>requirementsContent.
               analyzeCompilationTime parser genAI dockerContent requirementsContent
                 computeCapabilities)) of
          Inr analysis \<Rightarrow> prev\<lparr>compilationAnalysis := Some analysis\<rparr>
        | Inl e \<Rightarrow> prev)"

subsection \<open>The speed test\<close>

text \<open>
  \<^verbatim>\<open>
  const testInternetSpeed = async () => {
    setIsTestingSpeed(true);
    try {
      const startTime = Date.now();
      const testUrl = 'https://httpbin.org/bytes/1048576';
      await fetch(testUrl, { cache: 'no-cache' });
      const endTime = Date.now();
      const duration = (endTime - startTime) / 1000;
      const speed = (1 / duration) * 8;
      const internetSpeed = Math.max(speed, 1);
      let estimatedTime = '';
      if (results.totalSize) {
        const sizeInMB = parseFloat(results.totalSize.replace(/[^\d.]/g, ''));
        const timeInSeconds = (sizeInMB * 8) / internetSpeed;
        if (timeInSeconds < 60) {
          estimatedTime = `${Math.ceil(timeInSeconds)} seconds`;
        } else {
          const minutes = Math.floor(timeInSeconds / 60);
          const seconds = Math.ceil(timeInSeconds % 60);
          estimatedTime = `${minutes}m ${seconds}s`;
        }
      }
      setResults(prev => ({ ...prev,
        internetSpeed: Math.round(internetSpeed * 10) / 10, estimatedTime }));
    } catch (error) {
      console.error('Speed test error:', error);
      const simulatedSpeed = 25 + Math.random() * 50;
      setResults(prev => ({ ...prev, internetSpeed: Math.round(simulatedSpeed * 10) / 10 }));
    } finally { setIsTestingSpeed(false); }
  };
  \<close>
  What one run takes from the host: the two readings of the clock (whole milliseconds, of
  magnitude at most 8640000000000000, which binary64 holds exactly), how the promise of
  \<^verbatim>\<open>fetch\<close> settles, the value of \<^verbatim>\<open>Math.random()\<close>, which lies in \<open>[0, 1)\<close>, and the host's
  strings for numbers. The promise of \<^verbatim>\<open>fetch\<close> is rejected with an error when no response
  arrives; it is resolved with the response otherwise, whatever the HTTP status, which is
  all the model keeps of the response. The program does not look at the response.
  \<open>results\<close> is the record the function closed over when it was created; \<open>prev\<close> is the
  record at the moment of the update.
\<close>

record speed_test_run =
  startTime :: int
  fetch_settles :: "error + nat"
  endTime :: int
  Math_random :: rat
  host_string :: "rat \<Rightarrow> jsstring"

text \<open>
  \<^verbatim>\<open>.replace(/[^\d.]/g, '')\<close> deletes every code unit that is neither an ASCII digit nor a
  point. Only a string has the method; the call on another truthy value is a
  \<^verbatim>\<open>TypeError\<close>.
\<close>

definition numeric_unit :: "code_unit \<Rightarrow> bool" where
  "numeric_unit c = (isDigit c \<or> c = of_char CHR ''.'')"

definition replace_non_numeric :: "jsstring \<Rightarrow> jsstring" where
  "replace_non_numeric s = filter numeric_unit s"

definition sizeInMB :: "jsval \<Rightarrow> error + number" where
  "sizeInMB v =
     (case v of
        JString s \<Rightarrow> Inr (parseFloat (replace_non_numeric s))
      | _ \<Rightarrow> Inl TypeError)"

definition render_time :: "(rat \<Rightarrow> jsstring) \<Rightarrow> number \<Rightarrow> jsstring" where
  "render_time host timeInSeconds =
     (if num_lt timeInSeconds (Num 60) then
        number_to_string host (Math_ceil timeInSeconds) @ js '' seconds''
      else
        let minutes = Math_floor (num_div timeInSeconds (Num 60));
            seconds = Math_ceil (num_rem timeInSeconds (Num 60))
        in number_to_string host minutes @ js ''m '' @ number_to_string host seconds
             @ js ''s'')"

definition measured_speed :: "speed_test_run \<Rightarrow> number" where
  "measured_speed run =
     (let duration =
            num_div (num_sub (Num (of_int (endTime run))) (Num (of_int (startTime run))))
              (Num 1000);
          speed = num_mul (num_div (Num 1) duration) (Num 8)
      in Math_max speed (Num 1))"

definition speed_test_try ::
    "speed_test_run \<Rightarrow> AnalysisResults \<Rightarrow> error + number \<times> jsstring" where
  "speed_test_try run results =
     and_then (fetch_settles run) (\<lambda>u.
       let speed = measured_speed run in
       and_then
         (case totalSize results of
            None \<Rightarrow> Inr []
          | Some v \<Rightarrow>
              if truthy v then
                and_then (sizeInMB v) (\<lambda>mb.
                  Inr (render_time (host_string run) (num_div (num_mul mb (Num 8)) speed)))
              else Inr [])
         (\<lambda>time. Inr (speed, time)))"

definition testInternetSpeed ::
    "speed_test_run \<Rightarrow> AnalysisResults \<Rightarrow> AnalysisResults \<Rightarrow> AnalysisResults" where
  "testInternetSpeed run results prev =
     (case speed_test_try run results of
        Inr (speed, time) \<Rightarrow>
          prev\<lparr>internetSpeed := Some (num_div (Math_round (num_mul speed (Num 10))) (Num 10)),
               estimatedTime := Some time\<rparr>
      | Inl e \<Rightarrow>
          let simulatedSpeed = num_add (Num 25) (num_mul (Num (Math_random run)) (Num 50))
          in prev\<lparr>internetSpeed :=
                    Some (num_div (Math_round (num_mul simulatedSpeed (Num 10))) (Num 10))\<rparr>)"

text \<open>
  The specification's reading of the size: the leading numeric component, the first run
  of digits and points of the string.
\<close>

definition leading_numeric_component :: "jsstring \<Rightarrow> jsstring" where
  "leading_numeric_component s =
     takeWhile numeric_unit (dropWhile (\<lambda>c. \<not> numeric_unit c) s)"

section \<open>Notions of the specification\<close>

text \<open>
  The first fenced block of a text: \<open>pre\<close> is what stands before its opening fence, \<open>body\<close>
  its interior and \<open>post\<close> what follows its closing fence. No opening fence begins before
  this one (none lies within \<open>pre\<close> followed by all but the last code unit of a fence),
  and no closing fence begins within the interior.
\<close>

definition first_fenced_block :: "jsstring \<Rightarrow> jsstring \<Rightarrow> jsstring \<Rightarrow> jsstring \<Rightarrow> bool" where
  "first_fenced_block text pre body post =
     (text = pre @ fence_open @ body @ fence_close @ post
      \<and> \<not> sublist fence_open (pre @ butlast fence_open)
      \<and> \<not> sublist fence_close (body @ butlast fence_close))"

text \<open>The span from the first \<^verbatim>\<open>{\<close> of a text to its last \<^verbatim>\<open>}\<close>, with interior \<open>b\<close>.\<close>

definition widest_curly_span :: "jsstring \<Rightarrow> jsstring \<Rightarrow> jsstring \<Rightarrow> jsstring \<Rightarrow> bool" where
  "widest_curly_span text a b c =
     (text = a @ [lbrace] @ b @ [rbrace] @ c \<and> lbrace \<notin> set a \<and> rbrace \<notin> set c)"

text \<open>
  The remote model fails on a prompt: the call raises an error, or the text it returns,
  after extraction, does not parse.
\<close>

definition remote_fails :: "remote_model \<Rightarrow> jsstring \<Rightarrow> json_parser \<Rightarrow> bool" where
  "remote_fails model prompt parser =
     (case model prompt of
        Inl e \<Rightarrow> True
      | Inr text \<Rightarrow> parser (jsonText text) = None)"

text \<open>
  A parsed value carries a field when it is an object with that own property; the field is
  truthy when, moreover, its value counts as true in a condition.
\<close>

definition carries :: "jsval \<Rightarrow> jsstring \<Rightarrow> bool" where
  "carries v k = (case v of JObject kvs \<Rightarrow> map_of kvs k \<noteq> None | _ \<Rightarrow> False)"

definition field_truthy :: "jsval \<Rightarrow> jsstring \<Rightarrow> bool" where
  "field_truthy v k =
     (case v of
        JObject kvs \<Rightarrow> (case map_of kvs k of Some x \<Rightarrow> truthy x | None \<Rightarrow> False)
      | _ \<Rightarrow> False)"

text \<open>\<^verbatim>\<open>a >= b\<close> on numbers: false when either side is \<^verbatim>\<open>NaN\<close>.\<close>

definition num_ge :: "number \<Rightarrow> number \<Rightarrow> bool" where
  "num_ge a b = (a \<noteq> NaN \<and> b \<noteq> NaN \<and> \<not> num_lt a b)"

text \<open>
  The specification counts as a failed fetch a network error and a response with a
  non-success status (a status outside 200..299).
\<close>

definition fetch_fails :: "speed_test_run \<Rightarrow> bool" where
  "fetch_fails run =
     (case fetch_settles run of
        Inl e \<Rightarrow> True
      | Inr status \<Rightarrow> status < 200 \<or> 299 < status)"

section \<open>Sample inputs\<close>

text \<open>Response texts for the extraction.\<close>

definition sample_fenced :: jsstring where
  "sample_fenced = js ''Here: ```json'' @ [0xA] @ js ''{ x: [1, 2] } '' @ [0xA] @ js ''``` and {more}''"

definition sample_curly :: jsstring where
  "sample_curly = js ''```JSON { a: {} } ``` } tail''"

definition sample_plain :: jsstring where
  "sample_plain = js ''} no object here {''"

definition sample_uppercase :: jsstring where
  "sample_uppercase = js ''```JSON'' @ [0xA] @ js ''{ a: 1 }'' @ [0xA] @ js ''```''"

definition sample_two_blocks :: jsstring where
  "sample_two_blocks =
     js ''```json'' @ [0xA] @ js ''{ first }'' @ [0xA] @ js ''``` then ```json''
       @ [0xA] @ js ''{ second }'' @ [0xA] @ js ''```''"

text \<open>
  Remote models that answer every prompt with one text, or reject every call; parsers that
  know one text, or none; a response of the manifest shape with an empty item list and a
  given total size, and the value \<^verbatim>\<open>JSON.parse\<close> gives for it.
\<close>

definition replies :: "jsstring \<Rightarrow> remote_model" where
  "replies text = (\<lambda>prompt. Inr text)"

definition host_failure :: error where
  "host_failure = HostError (js ''Failed to fetch'')"

definition rejects :: remote_model where
  "rejects = (\<lambda>prompt. Inl host_failure)"

definition parses_only :: "jsstring \<Rightarrow> jsval \<Rightarrow> json_parser" where
  "parses_only text v = (\<lambda>s. if s = text then Some v else None)"

definition parses_nothing :: json_parser where
  "parses_nothing = (\<lambda>s. None)"

definition response_text :: "jsstring \<Rightarrow> jsstring" where
  "response_text sz =
     js ''{'' @ [dquote] @ js ''requirements'' @ [dquote] @ js '': [], '' @ [dquote]
       @ js ''totalSize'' @ [dquote] @ js '': '' @ [dquote] @ sz @ [dquote] @ js ''}''"

definition response_value :: "jsstring \<Rightarrow> jsval" where
  "response_value sz = JObject [(js ''requirements'', JArray []), (js ''totalSize'', JString sz)]"

definition default_capabilities :: ComputeCapabilities where
  "default_capabilities =
     \<lparr>cpu = Medium, memory = Medium, architecture = X86_64, environment = Local\<rparr>"

text \<open>
  Runs of the speed test: one whose \<^verbatim>\<open>fetch\<close> is resolved with a given HTTP status after a
  given number of milliseconds, and one whose \<^verbatim>\<open>fetch\<close> is rejected, with a given value of
  \<^verbatim>\<open>Math.random()\<close>; a results record that holds a total size only. The host's strings for
  numbers that are not small whole numbers play no part in these runs.
\<close>

definition no_host_string :: "rat \<Rightarrow> jsstring" where
  "no_host_string = (\<lambda>x. [])"

definition run_resolved :: "nat \<Rightarrow> int \<Rightarrow> speed_test_run" where
  "run_resolved status ms =
     \<lparr>startTime = 1000, fetch_settles = Inr status, endTime = 1000 + ms, Math_random = 1 / 2,
      host_string = no_host_string\<rparr>"

definition run_rejected :: "rat \<Rightarrow> speed_test_run" where
  "run_rejected r =
     \<lparr>startTime = 1000, fetch_settles = Inl host_failure, endTime = 1040, Math_random = r,
      host_string = no_host_string\<rparr>"

definition results_with_size :: "jsstring \<Rightarrow> AnalysisResults" where
  "results_with_size s = no_results\<lparr>totalSize := Some (JString s)\<rparr>"

section \<open>Properties of the matchers\<close>

lemma prefix_straddle:
  assumes "prefix lit (xs @ lit @ post)" "xs \<noteq> []"
  shows "prefix lit (xs @ butlast lit)"
proof (cases "lit = []")
  case True then show ?thesis by simp
next
  case False
  have "prefix (xs @ butlast lit) (xs @ lit @ post)"
    by (simp add: prefixeq_butlast prefix_order.trans)
  moreover have "length lit \<le> length (xs @ butlast lit)"
    using False assms(2) by (cases xs) auto
  ultimately show ?thesis using assms(1) prefix_length_prefix by blast
qed

lemma lazy_until_None_iff: "lazy_until lit s = None \<longleftrightarrow> \<not> sublist lit s"
  by (induction s) (auto simp: sublist_Cons_right)

lemma lazy_until_prefix: "prefix lit s \<Longrightarrow> lazy_until lit s = Some []"
  by (cases s) auto

lemma lazy_until_first:
  "\<not> sublist lit (body @ butlast lit) \<Longrightarrow> lazy_until lit (body @ lit @ post) = Some body"
proof (induction body)
  case Nil
  then show ?case by (simp add: lazy_until_prefix)
next
  case (Cons b bs)
  have "\<not> prefix lit ((b # bs) @ lit @ post)"
    using Cons.prems prefix_straddle[of lit "b # bs" post] by auto
  moreover have "\<not> sublist lit (bs @ butlast lit)"
    using Cons.prems by (simp add: sublist_Cons_right)
  ultimately show ?case using Cons.IH by simp
qed

lemma lazy_until_SomeD:
  assumes "lazy_until lit s = Some g" "lit \<noteq> []"
  shows "\<exists>post. s = g @ lit @ post \<and> \<not> sublist lit (g @ butlast lit)"
  using assms
proof (induction s arbitrary: g)
  case Nil
  then show ?case by (auto split: if_splits)
next
  case (Cons c cs)
  show ?case
  proof (cases "prefix lit (c # cs)")
    case True
    then have "g = []" using Cons.prems by simp
    moreover have "\<not> sublist lit (butlast lit)"
      using Cons.prems(2) sublist_length_le[of lit "butlast lit"] by (cases lit) auto
    ultimately show ?thesis using True by (auto simp: prefix_def)
  next
    case False
    then obtain g' where g': "g = c # g'" "lazy_until lit cs = Some g'"
      using Cons.prems by auto
    from Cons.IH[OF g'(2) Cons.prems(2)] obtain post where
      post: "cs = g' @ lit @ post" "\<not> sublist lit (g' @ butlast lit)" by blast
    have "\<not> prefix lit (c # g' @ butlast lit)"
    proof
      assume "prefix lit (c # g' @ butlast lit)"
      moreover have "prefix (c # g' @ butlast lit) (c # cs)"
        using post(1) by (simp add: prefixeq_butlast)
      ultimately show False using False prefix_order.trans by blast
    qed
    then show ?thesis using g'(1) post by (auto simp: sublist_Cons_right)
  qed
qed

lemma search_None_iff: "search m s = None \<longleftrightarrow> (\<forall>t. suffix t s \<longrightarrow> m t = None)"
  by (induction s) (auto simp: suffix_Cons split: option.splits)

lemma search_SomeD:
  "search m s = Some r \<Longrightarrow>
     \<exists>pre t. s = pre @ t \<and> m t = Some r \<and> (\<forall>i<length pre. m (drop i s) = None)"
proof (induction s)
  case Nil
  then show ?case by auto
next
  case (Cons c cs)
  show ?case
  proof (cases "m (c # cs)")
    case (Some a)
    then have "c # cs = [] @ (c # cs) \<and> m (c # cs) = Some r \<and> (\<forall>i<length ([]::jsstring). m (drop i (c # cs)) = None)"
      using Cons.prems by simp
    then show ?thesis by blast
  next
    case None
    then have "search m cs = Some r" using Cons.prems by simp
    from Cons.IH[OF this] obtain pre t where
      pt: "cs = pre @ t" "m t = Some r" "\<forall>i<length pre. m (drop i cs) = None" by blast
    have "\<forall>i<length (c # pre). m (drop i (c # cs)) = None"
    proof (intro allI impI)
      fix i assume "i < length (c # pre)"
      then show "m (drop i (c # cs)) = None"
        using None pt(3) by (cases i) auto
    qed
    then have "c # cs = (c # pre) @ t \<and> m t = Some r \<and> (\<forall>i<length (c # pre). m (drop i (c # cs)) = None)"
      using pt by simp
    then show ?thesis by blast
  qed
qed

lemma search_skip:
  assumes "\<And>i. i < length pre \<Longrightarrow> m (drop i (pre @ s)) = None"
  shows "search m (pre @ s) = search m s"
  using assms
proof (induction pre)
  case Nil
  then show ?case by simp
next
  case (Cons p ps)
  have "m ((p # ps) @ s) = None" using Cons.prems[of 0] by simp
  moreover have "search m (ps @ s) = search m s"
  proof (rule Cons.IH)
    fix i assume "i < length ps"
    then show "m (drop i (ps @ s)) = None" using Cons.prems[of "Suc i"] by simp
  qed
  ultimately show ?case by simp
qed

lemma search_hit: "m s = Some r \<Longrightarrow> search m s = Some r"
  by (cases s) auto

lemma fence_open_not_Nil: "fence_open \<noteq> []"
  by (simp add: fence_open_def js_def)

lemma fence_close_not_Nil: "fence_close \<noteq> []"
  by (simp add: fence_close_def js_def)

lemma match_fence_at_SomeD:
  assumes "match_fence_at s = Some g"
  shows "\<exists>post. s = fence_open @ g @ fence_close @ post
           \<and> \<not> sublist fence_close (g @ butlast fence_close)"
proof -
  from assms have p: "prefix fence_open s"
    and l: "lazy_until fence_close (drop (length fence_open) s) = Some g"
    by (auto simp: match_fence_at_def split: if_splits)
  from lazy_until_SomeD[OF l fence_close_not_Nil] obtain post where
    "drop (length fence_open) s = g @ fence_close @ post"
    "\<not> sublist fence_close (g @ butlast fence_close)" by blast
  moreover from p have "s = fence_open @ drop (length fence_open) s"
    by (auto simp: prefix_def)
  ultimately show ?thesis by metis
qed

lemma match_fence_at_open:
  "match_fence_at (fence_open @ r) = lazy_until fence_close r"
  by (simp add: match_fence_at_def)

lemma match_fence_at_None_before:
  assumes "\<not> sublist fence_open (pre @ butlast fence_open)" "i < length pre"
  shows "match_fence_at (drop i (pre @ fence_open @ rest)) = None"
proof -
  have "\<not> prefix fence_open (drop i (pre @ fence_open @ rest))"
  proof
    assume a: "prefix fence_open (drop i (pre @ fence_open @ rest))"
    have d: "drop i (pre @ fence_open @ rest) = drop i pre @ fence_open @ rest"
      using assms(2) by simp
    have "drop i pre \<noteq> []" using assms(2) by simp
    with a d have "prefix fence_open (drop i pre @ butlast fence_open)"
      using prefix_straddle[of fence_open "drop i pre" rest] by simp
    then have "sublist fence_open (drop i pre @ butlast fence_open)" by simp
    then have "sublist fence_open (take i pre @ drop i pre @ butlast fence_open)"
      using sublist_append by blast
    then show False using assms(1) by (metis append_assoc append_take_drop_id)
  qed
  then show ?thesis by (simp add: match_fence_at_def)
qed

lemma search_fence_first:
  assumes "\<not> sublist fence_open (pre @ butlast fence_open)"
    and "\<not> sublist fence_close (body @ butlast fence_close)"
  shows "search match_fence_at (pre @ fence_open @ body @ fence_close @ post) = Some body"
proof -
  have "search match_fence_at (pre @ fence_open @ body @ fence_close @ post)
      = search match_fence_at (fence_open @ body @ fence_close @ post)"
    by (rule search_skip) (rule match_fence_at_None_before[OF assms(1)])
  also have "\<dots> = Some body"
    by (rule search_hit) (simp add: match_fence_at_open lazy_until_first[OF assms(2)])
  finally show ?thesis .
qed

lemma search_fence_None_iff:
  "search match_fence_at text = None \<longleftrightarrow> \<not> has_fenced_block text"
proof
  assume n: "search match_fence_at text = None"
  show "\<not> has_fenced_block text"
  proof
    assume "has_fenced_block text"
    then obtain pre body post where
      t: "text = pre @ fence_open @ body @ fence_close @ post"
      by (auto simp: has_fenced_block_def)
    have "suffix (fence_open @ body @ fence_close @ post) text"
      using t by (simp add: suffix_def)
    with n have "match_fence_at (fence_open @ body @ fence_close @ post) = None"
      by (simp add: search_None_iff)
    then have "\<not> sublist fence_close (body @ fence_close @ post)"
      by (simp add: match_fence_at_open lazy_until_None_iff)
    then show False by simp
  qed
next
  assume nb: "\<not> has_fenced_block text"
  show "search match_fence_at text = None"
  proof (rule ccontr)
    assume "search match_fence_at text \<noteq> None"
    then obtain g where "search match_fence_at text = Some g" by auto
    from search_SomeD[OF this] obtain pre t where
      "text = pre @ t" "match_fence_at t = Some g" by blast
    with match_fence_at_SomeD[of t g] have "has_fenced_block text"
      by (auto simp: has_fenced_block_def)
    with nb show False by simp
  qed
qed

lemma search_fence_SomeD:
  assumes "search match_fence_at text = Some g"
  shows "\<exists>pre post. text = pre @ fence_open @ g @ fence_close @ post
           \<and> \<not> sublist fence_open (pre @ butlast fence_open)
           \<and> \<not> sublist fence_close (g @ butlast fence_close)"
proof -
  from search_SomeD[OF assms] obtain pre t where
    pt: "text = pre @ t" "match_fence_at t = Some g"
        "\<forall>i<length pre. match_fence_at (drop i text) = None" by blast
  from match_fence_at_SomeD[OF pt(2)] obtain post where
    post: "t = fence_open @ g @ fence_close @ post"
          "\<not> sublist fence_close (g @ butlast fence_close)" by blast
  have "\<not> sublist fence_open (pre @ butlast fence_open)"
  proof
    assume "sublist fence_open (pre @ butlast fence_open)"
    then obtain u v where uv: "pre @ butlast fence_open = u @ fence_open @ v"
      by (auto simp: sublist_def)
    have "length (pre @ butlast fence_open) = length (u @ fence_open @ v)"
      using uv by simp
    then have "length pre + (length fence_open - 1) = length u + length fence_open + length v"
      by simp
    moreover have "0 < length fence_open"
      using fence_open_not_Nil by simp
    ultimately have lt: "length u < length pre"
      by arith
    have "text = (pre @ butlast fence_open) @ [last fence_open] @ g @ fence_close @ post"
      using pt(1) post(1) fence_open_not_Nil
      by (metis append_assoc append_butlast_last_id append_Cons append_Nil)
    then have tx: "text = u @ fence_open @ (v @ [last fence_open] @ g) @ fence_close @ post"
      using uv by simp
    then have "drop (length u) text = fence_open @ (v @ [last fence_open] @ g) @ fence_close @ post"
      by simp
    moreover have "sublist fence_close ((v @ [last fence_open] @ g) @ fence_close @ post)"
      by (rule sublist_appendI)
    then have "lazy_until fence_close ((v @ [last fence_open] @ g) @ fence_close @ post) \<noteq> None"
      by (simp only: lazy_until_None_iff not_not)
    ultimately have "match_fence_at (drop (length u) text) \<noteq> None"
      by (simp add: match_fence_at_open)
    moreover have "match_fence_at (drop (length u) text) = None"
      using lt by (rule pt(3)[rule_format])
    ultimately show False by simp
  qed
  with pt(1) post show ?thesis by blast
qed

lemma search_fence_no_open:
  assumes "\<not> sublist fence_open text"
  shows "search match_fence_at text = None"
proof -
  have "\<not> has_fenced_block text"
    using assms by (auto simp: has_fenced_block_def)
  then show ?thesis by (simp add: search_fence_None_iff)
qed

lemma greedy_until_None_iff: "greedy_until d s = None \<longleftrightarrow> d \<notin> set s"
  by (induction s) (auto split: option.splits)

lemma greedy_until_last:
  "d \<notin> set c \<Longrightarrow> greedy_until d (b @ [d] @ c) = Some (b @ [d])"
proof (induction b)
  case Nil
  then have "greedy_until d c = None" by (simp add: greedy_until_None_iff)
  then show ?case by simp
next
  case (Cons x xs)
  then show ?case by simp
qed

lemma match_curly_at_SomeD:
  assumes "match_curly_at s = Some r"
  shows "\<exists>cs. s = lbrace # cs \<and> rbrace \<in> set cs"
proof -
  from assms obtain cs g where "s = lbrace # cs" "greedy_until rbrace cs = Some g"
    by (auto simp: match_curly_at_def split: list.splits if_splits)
  moreover then have "rbrace \<in> set cs"
    using greedy_until_None_iff[of rbrace cs] by auto
  ultimately show ?thesis by blast
qed

lemma search_curly_first_last:
  assumes "lbrace \<notin> set a" "rbrace \<notin> set c"
  shows "search match_curly_at (a @ [lbrace] @ b @ [rbrace] @ c) = Some ([lbrace] @ b @ [rbrace])"
  using assms(1)
proof (induction a)
  case Nil
  have "match_curly_at ([lbrace] @ b @ [rbrace] @ c) = Some ([lbrace] @ b @ [rbrace])"
    using greedy_until_last[OF assms(2), of b] by (simp add: match_curly_at_def)
  from search_hit[of match_curly_at, OF this] show ?case by simp
next
  case (Cons x xs)
  then have "match_curly_at ((x # xs) @ [lbrace] @ b @ [rbrace] @ c) = None"
    by (auto simp: match_curly_at_def)
  with Cons show ?case by simp
qed

lemma search_curly_None_iff:
  "search match_curly_at text = None \<longleftrightarrow> \<not> has_curly_span text"
proof
  assume n: "search match_curly_at text = None"
  show "\<not> has_curly_span text"
  proof
    assume "has_curly_span text"
    then obtain a b c where t: "text = a @ [lbrace] @ b @ [rbrace] @ c"
      by (auto simp: has_curly_span_def)
    have "suffix ([lbrace] @ b @ [rbrace] @ c) text" using t by (simp add: suffix_def)
    with n have "match_curly_at ([lbrace] @ b @ [rbrace] @ c) = None"
      by (simp add: search_None_iff)
    then have "greedy_until rbrace (b @ [rbrace] @ c) = None"
      by (simp add: match_curly_at_def)
    then show False by (simp add: greedy_until_None_iff)
  qed
next
  assume nb: "\<not> has_curly_span text"
  show "search match_curly_at text = None"
  proof (rule ccontr)
    assume "search match_curly_at text \<noteq> None"
    then obtain g where "search match_curly_at text = Some g" by auto
    from search_SomeD[OF this] obtain pre t where
      pt: "text = pre @ t" "match_curly_at t = Some g" by blast
    from match_curly_at_SomeD[OF pt(2)] obtain cs where
      cs: "t = lbrace # cs" "rbrace \<in> set cs" by blast
    from split_list[OF cs(2)] obtain b c where "cs = b @ rbrace # c" by blast
    with pt(1) cs(1) have "text = pre @ [lbrace] @ b @ [rbrace] @ c" by simp
    then have "has_curly_span text" unfolding has_curly_span_def by blast
    with nb show False by simp
  qed
qed

lemma curly_span_first_last:
  assumes "has_curly_span text"
  shows "\<exists>a b c. text = a @ [lbrace] @ b @ [rbrace] @ c \<and> lbrace \<notin> set a \<and> rbrace \<notin> set c"
proof -
  from assms have "search match_curly_at text \<noteq> None"
    by (simp add: search_curly_None_iff)
  then obtain g where "search match_curly_at text = Some g" by auto
  from search_SomeD[OF this] obtain pre t where
    pt: "text = pre @ t" "match_curly_at t = Some g"
        "\<forall>i<length pre. match_curly_at (drop i text) = None" by blast
  from match_curly_at_SomeD[OF pt(2)] obtain cs where
    cs: "t = lbrace # cs" "rbrace \<in> set cs" by blast
  from split_list_last[OF cs(2)] obtain b c where
    bc: "cs = b @ rbrace # c" "rbrace \<notin> set c" by blast
  have "lbrace \<notin> set pre"
  proof
    assume "lbrace \<in> set pre"
    from split_list[OF this] obtain u v where uv: "pre = u @ lbrace # v" by blast
    have "drop (length u) text = lbrace # (v @ lbrace # b) @ [rbrace] @ c"
      unfolding pt(1) cs(1) bc(1) uv by simp
    moreover have "greedy_until rbrace ((v @ lbrace # b) @ [rbrace] @ c) \<noteq> None"
      unfolding greedy_until_None_iff by simp
    ultimately have "match_curly_at (drop (length u) text) \<noteq> None"
      by (simp add: match_curly_at_def)
    moreover have "length u < length pre" unfolding uv by simp
    then have "match_curly_at (drop (length u) text) = None"
      by (rule pt(3)[rule_format])
    ultimately show False by simp
  qed
  moreover have "text = pre @ [lbrace] @ b @ [rbrace] @ c"
    unfolding pt(1) cs(1) bc(1) by simp
  ultimately have "text = pre @ [lbrace] @ b @ [rbrace] @ c \<and> lbrace \<notin> set pre \<and> rbrace \<notin> set c"
    using bc(2) by (intro conjI)
  then show ?thesis by (intro exI)
qed

lemma extractJSON_fenced:
  "first_fenced_block text pre body post \<Longrightarrow> extractJSON text = Some (trim body)"
  by (simp add: first_fenced_block_def extractJSON_def search_fence_first)

lemma extractJSON_curly:
  "\<not> has_fenced_block text \<Longrightarrow> widest_curly_span text a b c \<Longrightarrow>
     extractJSON text = Some ([lbrace] @ b @ [rbrace])"
  using search_curly_first_last[of a c b]
  by (simp add: widest_curly_span_def extractJSON_def search_fence_None_iff[symmetric])

lemma extractJSON_neither:
  "\<not> has_fenced_block text \<Longrightarrow> \<not> has_curly_span text \<Longrightarrow> extractJSON text = None"
  by (simp add: extractJSON_def search_fence_None_iff[symmetric] search_curly_None_iff[symmetric])

section \<open>Properties of the analysis operations\<close>

lemma and_then_Inl [simp]: "and_then (Inl e) f = Inl e"
  by (simp add: and_then_def)

lemma and_then_Inr [simp]: "and_then (Inr v) f = f v"
  by (simp add: and_then_def)

lemma try_catch_Inl [simp]: "try_catch (Inl e) h = h e"
  by (simp add: try_catch_def)

lemma try_catch_Inr [simp]: "try_catch (Inr v) h = Inr v"
  by (simp add: try_catch_def)

lemma try_catch_total:
  "(\<And>e. \<exists>v. h e = Inr v) \<Longrightarrow> \<exists>v. try_catch body h = Inr v"
  by (cases body) auto

lemma analyzeDockerfile_total: "\<exists>v. analyzeDockerfile parser genAI c = Inr v"
  unfolding analyzeDockerfile_def
  by (cases genAI) (auto intro: try_catch_total)

lemma analyzeRequirements_total: "\<exists>v. analyzeRequirements parser genAI c = Inr v"
  unfolding analyzeRequirements_def
  by (cases genAI) (auto intro: try_catch_total)

lemma analyzeCompilationTime_total: "\<exists>v. analyzeCompilationTime parser genAI d r caps = Inr v"
  unfolding analyzeCompilationTime_def
  by (cases genAI) (auto intro: try_catch_total)

lemma analyzeDockerfile_fails:
  "remote_fails model (dockerfile_prompt c) parser \<Longrightarrow>
     analyzeDockerfile parser (Some model) c = Inr getFallbackDockerAnalysis"
  by (auto simp: remote_fails_def analyzeDockerfile_def JSON_parse_def split: sum.splits)

lemma analyzeRequirements_fails:
  "remote_fails model (requirements_prompt c) parser \<Longrightarrow>
     analyzeRequirements parser (Some model) c = Inr getFallbackRequirementsAnalysis"
  by (auto simp: remote_fails_def analyzeRequirements_def JSON_parse_def split: sum.splits)

lemma analyzeCompilationTime_fails:
  "remote_fails model (compilation_prompt d r caps) parser \<Longrightarrow>
     analyzeCompilationTime parser (Some model) d r caps = Inr getFallbackCompilationAnalysis"
  by (auto simp: remote_fails_def analyzeCompilationTime_def JSON_parse_def split: sum.splits)

lemma get_prop_field_truthy:
  "field_truthy v k \<longleftrightarrow> (\<exists>x. get_prop v k = Inr x \<and> truthy x)"
  by (cases v) (auto simp: field_truthy_def split: option.splits)

lemma analyzeRequirements_parsed:
  assumes "model (requirements_prompt c) = Inr text" "parser (jsonText text) = Some parsed"
  shows "analyzeRequirements parser (Some model) c =
           Inr (if field_truthy parsed (js ''requirements'') \<and> field_truthy parsed (js ''totalSize'')
                then parsed else getFallbackRequirementsAnalysis)"
proof (cases "get_prop parsed (js ''requirements'')")
  case (Inl e)
  then have "\<not> field_truthy parsed (js ''requirements'')"
    by (simp add: get_prop_field_truthy)
  with Inl assms show ?thesis
    by (simp add: analyzeRequirements_def JSON_parse_def)
next
  case r: (Inr x)
  show ?thesis
  proof (cases "get_prop parsed (js ''totalSize'')")
    case (Inl e)
    then have "\<not> field_truthy parsed (js ''totalSize'')"
      by (simp add: get_prop_field_truthy)
    with Inl r assms show ?thesis
      by (simp add: analyzeRequirements_def JSON_parse_def)
  next
    case t: (Inr y)
    from r t have "field_truthy parsed (js ''requirements'') = truthy x"
      "field_truthy parsed (js ''totalSize'') = truthy y"
      by (simp_all add: get_prop_field_truthy)
    with r t assms show ?thesis
      by (simp add: analyzeRequirements_def JSON_parse_def)
  qed
qed

section \<open>Properties of the speed test\<close>

lemma nat_to_string_small: "n < 10 \<Longrightarrow> nat_to_string n = [of_nat (48 + n)]"
  by (simp add: nat_to_string.simps)

lemma nat_to_string_large:
  "\<not> n < 10 \<Longrightarrow> nat_to_string n = nat_to_string (n div 10) @ [of_nat (48 + n mod 10)]"
  by (subst nat_to_string.simps) simp

lemma floor_quotient: "\<lfloor>(numeral a :: rat) / numeral b\<rfloor> = numeral a div numeral b"
  using floor_divide_of_int_eq[of "numeral a" "numeral b", where ?'a = rat] by simp

lemma ceiling_quotient:
  "\<lceil>(numeral a :: rat) / numeral b\<rceil> = - ((- numeral a) div numeral b)"
  using floor_divide_of_int_eq[of "- numeral a" "numeral b", where ?'a = rat]
  by (simp add: ceiling_def)

lemma bit_length_0: "bit_length 0 = 0"
  by (simp add: bit_length.simps)

lemma bit_length_pos: "0 < n \<Longrightarrow> bit_length n = Suc (bit_length (n div 2))"
  by (subst bit_length.simps) simp

lemma bit_length_bounds:
  "0 < n \<Longrightarrow> 2 ^ (bit_length n - 1) \<le> n \<and> n < 2 ^ bit_length n"
proof (induction n rule: bit_length.induct)
  case (1 n)
  show ?case
  proof (cases "n div 2 = 0")
    case True
    with 1(2) have "n = 1" by (cases n) auto
    then show ?thesis by (simp add: bit_length_pos bit_length_0)
  next
    case False
    then have pos: "0 < n div 2" by simp
    from 1(1)[OF _ pos] 1(2)
    have ih: "2 ^ (bit_length (n div 2) - 1) \<le> n div 2" "n div 2 < 2 ^ bit_length (n div 2)"
      by auto
    have bp: "0 < bit_length (n div 2)"
      using pos by (simp add: bit_length_pos)
    have "bit_length n = Suc (bit_length (n div 2))"
      using 1(2) by (simp add: bit_length_pos)
    moreover have "2 ^ bit_length (n div 2) \<le> n"
    proof -
      have "2 ^ bit_length (n div 2) = 2 * 2 ^ (bit_length (n div 2) - 1)"
        using bp by (cases "bit_length (n div 2)") auto
      also have "\<dots> \<le> 2 * (n div 2)" using ih(1) by simp
      also have "\<dots> \<le> n" by simp
      finally show ?thesis .
    qed
    moreover have "n < 2 * 2 ^ bit_length (n div 2)"
      using ih(2) by linarith
    ultimately show ?thesis by simp
  qed
qed

lemma exponent2_bounds:
  assumes "0 < x"
  shows "2 powi exponent2 x \<le> x \<and> x < 2 powi (exponent2 x + 1)"
proof (cases "1 \<le> x")
  case True
  define n where "n = nat \<lfloor>x\<rfloor>"
  have n1: "0 < n" using True by (simp add: n_def)
  have nx: "of_nat n \<le> x" "x < of_nat n + 1"
    using True by (simp_all add: n_def) (linarith+)?
  from bit_length_bounds[OF n1]
  have b: "2 ^ (bit_length n - 1) \<le> n" "n < 2 ^ bit_length n" by auto
  have bp: "0 < bit_length n" using n1 by (simp add: bit_length_pos)
  have e: "exponent2 x = int (bit_length n - 1)"
    using True bp by (simp add: exponent2_def n_def)
  have "(of_nat (2 ^ (bit_length n - 1)) :: rat) \<le> of_nat n"
    using b(1) by (simp only: of_nat_le_iff)
  then have "(2::rat) ^ (bit_length n - 1) \<le> of_nat n" by simp
  then have "(2::rat) ^ (bit_length n - 1) \<le> x" using nx(1) by (rule order_trans)
  then have lo: "2 powi exponent2 x \<le> x" using e by simp
  have "Suc n \<le> 2 ^ bit_length n" using b(2) by simp
  then have "(of_nat (Suc n) :: rat) \<le> of_nat (2 ^ bit_length n)"
    by (simp only: of_nat_le_iff)
  then have up: "of_nat n + 1 \<le> (2::rat) ^ bit_length n" by simp
  have e1: "exponent2 x + 1 = int (bit_length n)" using e bp by simp
  have "x < 2 ^ bit_length n"
    using nx(2) up by (rule less_le_trans)
  then have hi: "x < 2 powi (exponent2 x + 1)"
    by (simp only: e1 power_int_of_nat)
  from lo hi show ?thesis by simp
next
  case False
  define y where "y = 1 / x"
  have y1: "1 < y" using False assms by (simp add: y_def)
  define m where "m = nat (\<lceil>y\<rceil> - 1)"
  have c2: "2 \<le> \<lceil>y\<rceil>" using y1 by linarith
  then have m1: "0 < m" by (simp add: m_def)
  have my: "of_nat m < y" "y \<le> of_nat m + 1"
  proof -
    have "of_int (\<lceil>y\<rceil> - 1) < y" by linarith
    moreover have "(of_nat m :: rat) = of_int (\<lceil>y\<rceil> - 1)"
      using c2 by (simp add: m_def)
    ultimately show "of_nat m < y" by simp
    have "y \<le> of_int \<lceil>y\<rceil>" by linarith
    moreover have "(of_nat m :: rat) + 1 = of_int \<lceil>y\<rceil>"
      using c2 by (simp add: m_def)
    ultimately show "y \<le> of_nat m + 1" by simp
  qed
  from bit_length_bounds[OF m1]
  have b: "2 ^ (bit_length m - 1) \<le> m" "m < 2 ^ bit_length m" by auto
  have bp: "0 < bit_length m" using m1 by (simp add: bit_length_pos)
  have e: "exponent2 x = - int (bit_length m)"
    using False by (simp add: exponent2_def m_def y_def)
  have "Suc m \<le> 2 ^ bit_length m" using b(2) by simp
  then have "(of_nat (Suc m) :: rat) \<le> of_nat (2 ^ bit_length m)"
    by (simp only: of_nat_le_iff)
  then have "of_nat m + 1 \<le> (2::rat) ^ bit_length m" by simp
  then have "y \<le> 2 ^ bit_length m" using my(2) by linarith
  then have "1 / 2 ^ bit_length m \<le> x"
    using assms by (simp add: y_def field_simps)
  then have lo: "2 powi exponent2 x \<le> x"
    using e by (simp add: power_int_minus_divide)
  have "(of_nat (2 ^ (bit_length m - 1)) :: rat) \<le> of_nat m"
    using b(1) by (simp only: of_nat_le_iff)
  then have "(2::rat) ^ (bit_length m - 1) \<le> of_nat m" by simp
  then have "2 ^ (bit_length m - 1) < y" using my(1) by linarith
  then have "x < 1 / 2 ^ (bit_length m - 1)"
    using assms by (simp add: y_def field_simps)
  moreover have "exponent2 x + 1 = - int (bit_length m - 1)" using e bp by simp
  ultimately have hi: "x < 2 powi (exponent2 x + 1)"
    by (simp add: power_int_minus_divide)
  from lo hi show ?thesis by simp
qed

lemma round_half_even_ge: "of_int j \<le> t \<Longrightarrow> j \<le> round_half_even t"
proof -
  assume "of_int j \<le> t"
  then have "j \<le> \<lfloor>t\<rfloor>" by (simp only: le_floor_iff)
  moreover have "\<lfloor>t\<rfloor> \<le> round_half_even t"
    by (simp add: round_half_even_def Let_def)
  ultimately show ?thesis by (rule order_trans)
qed

lemma round_half_even_le: "t \<le> of_int j \<Longrightarrow> round_half_even t \<le> j"
proof (cases "t = of_int \<lfloor>t\<rfloor>")
  case True
  assume a: "t \<le> of_int j"
  from True have "round_half_even t = \<lfloor>t\<rfloor>"
    by (simp add: round_half_even_def Let_def)
  moreover have "\<lfloor>t\<rfloor> \<le> j" using a by (simp add: floor_le_iff)
  ultimately show ?thesis by simp
next
  case False
  assume a: "t \<le> of_int j"
  have "of_int \<lfloor>t\<rfloor> \<le> t" by (rule of_int_floor_le)
  moreover have "of_int \<lfloor>t\<rfloor> \<noteq> t" using False by (rule not_sym)
  ultimately have "of_int \<lfloor>t\<rfloor> < t" by (rule le_neq_trans)
  then have "of_int \<lfloor>t\<rfloor> < (of_int j :: rat)" using a by (rule less_le_trans)
  then have "\<lfloor>t\<rfloor> < j" by (simp only: of_int_less_iff)
  then have "\<lfloor>t\<rfloor> + 1 \<le> j" by simp
  moreover have "round_half_even t \<le> \<lfloor>t\<rfloor> + 1"
    by (simp add: round_half_even_def Let_def)
  ultimately show ?thesis by (rule order_trans[rotated])
qed

lemma exponent2_nonneg: "1 \<le> x \<Longrightarrow> 0 \<le> exponent2 x"
proof -
  assume a: "1 \<le> x"
  then have "0 < nat \<lfloor>x\<rfloor>" by simp
  then have "0 < bit_length (nat \<lfloor>x\<rfloor>)" by (simp add: bit_length_pos)
  then show ?thesis using a by (simp add: exponent2_def)
qed

lemma quantum_pos: "0 < quantum x"
  by (simp add: quantum_def)

lemma over_fine_quantum:
  assumes "e \<le> 52"
  shows "of_int k / 2 powi (e - 52) = (of_int (k * 2 ^ nat (52 - e)) :: rat)"
proof -
  have "(2::rat) powi (e - 52) = 2 powi (- (52 - e))" by simp
  also have "\<dots> = 1 / 2 powi (52 - e)" by (rule power_int_minus_divide)
  also have "\<dots> = 1 / 2 ^ nat (52 - e)"
    using assms by (simp add: power_int_nonneg_exp)
  finally show ?thesis by simp
qed

lemma round64_cases:
  assumes "x \<noteq> 0"
  shows "round64 x =
     (if 2 ^ 1024 \<le> \<bar>of_int (round_half_even (x / quantum x)) * quantum x\<bar>
      then signed_infinity (of_int (round_half_even (x / quantum x)) * quantum x)
      else Num (of_int (round_half_even (x / quantum x)) * quantum x))"
  using assms by (simp add: round64_def Let_def)

lemma round64_lower:
  assumes "1 \<le> k" "k < 2 ^ 53" "of_int k \<le> x"
  shows "round64 x = Infinity \<or> (\<exists>y. round64 x = Num y \<and> of_int k \<le> y)"
proof -
  have x1: "1 \<le> x" using assms(1,3) by (meson of_int_1_le_iff order_trans)
  then have xpos: "0 < x" by simp
  define e where "e = exponent2 x"
  define q where "q = quantum x"
  define y where "y = of_int (round_half_even (x / q)) * q"
  have e0: "0 \<le> e" unfolding e_def using x1 by (rule exponent2_nonneg)
  have eb: "2 powi e \<le> x" unfolding e_def using exponent2_bounds[OF xpos] by simp
  have q: "q = 2 powi (e - 52)"
    using e0 xpos by (simp add: q_def quantum_def e_def max_def)
  have qpos: "0 < q" unfolding q_def by (rule quantum_pos)
  have ky: "of_int k \<le> y"
  proof (cases "e \<le> 52")
    case True
    have "of_int (k * 2 ^ nat (52 - e)) = of_int k / q"
      unfolding q using over_fine_quantum[OF True, of k] by simp
    also have "\<dots> \<le> x / q" using assms(3) qpos by (simp add: divide_right_mono)
    finally have "k * 2 ^ nat (52 - e) \<le> round_half_even (x / q)"
      by (rule round_half_even_ge)
    then have "(of_int (k * 2 ^ nat (52 - e)) :: rat) \<le> of_int (round_half_even (x / q))"
      by (simp only: of_int_le_iff)
    then have h: "of_int (k * 2 ^ nat (52 - e)) * q \<le> y"
      unfolding y_def using qpos by (simp only: mult_le_cancel_right_pos)
    have "of_int (k * 2 ^ nat (52 - e)) * q = of_int k / q * q"
      unfolding q using over_fine_quantum[OF True, of k] by simp
    also have "\<dots> = of_int k" using qpos by simp
    finally have g: "of_int (k * 2 ^ nat (52 - e)) * q = of_int k" .
    from h show ?thesis unfolding g .
  next
    case False
    have "(2::rat) powi e / q = 2 powi 52"
      unfolding q by (subst power_int_diff[symmetric]) simp_all
    then have "(of_int (2 ^ 52) :: rat) = 2 powi e / q" by simp
    also have "\<dots> \<le> x / q" using eb qpos by (simp add: divide_right_mono)
    finally have "2 ^ 52 \<le> round_half_even (x / q)"
      by (rule round_half_even_ge)
    then have "(of_int (2 ^ 52) :: rat) \<le> of_int (round_half_even (x / q))"
      by (simp only: of_int_le_iff)
    then have "of_int (2 ^ 52) * q \<le> y"
      unfolding y_def using qpos by (simp only: mult_le_cancel_right_pos)
    moreover have "of_int (2 ^ 52) * q = 2 powi e"
      using \<open>(2::rat) powi e / q = 2 powi 52\<close> qpos by (simp add: field_simps)
    moreover have "(2::rat) powi 53 \<le> 2 powi e"
      using False by (intro power_int_increasing) simp_all
    moreover have "(of_int k :: rat) < 2 powi 53"
    proof -
      have "(of_int k :: rat) < of_int (2 ^ 53)" using assms(2) by (simp only: of_int_less_iff)
      then show ?thesis by simp
    qed
    ultimately show ?thesis by linarith
  qed
  have ypos: "0 < y" using ky assms(1) by (meson less_le_trans of_int_0_less_iff zero_less_one less_le_trans)
  have "round64 x = (if 2 ^ 1024 \<le> \<bar>y\<bar> then signed_infinity y else Num y)"
    unfolding y_def q_def using xpos by (simp add: round64_cases)
  then show ?thesis using ypos ky by (simp add: signed_infinity_def)
qed

lemma round64_upper:
  assumes "1 \<le> k" "k < 2 ^ 53" "0 \<le> x" "x \<le> of_int k"
  shows "\<exists>y. round64 x = Num y \<and> 0 \<le> y \<and> y \<le> of_int k"
proof (cases "x = 0")
  case True
  then show ?thesis using assms(1) by (simp add: round64_def)
next
  case False
  then have xpos: "0 < x" using assms(3) by simp
  define e where "e = max (exponent2 x) (- 1022)"
  define q where "q = quantum x"
  define y where "y = of_int (round_half_even (x / q)) * q"
  have kb: "(of_int k :: rat) < 2 powi 53"
  proof -
    have "(of_int k :: rat) < of_int (2 ^ 53)" using assms(2) by (simp only: of_int_less_iff)
    then show ?thesis by simp
  qed
  have "exponent2 x < 53"
  proof (rule ccontr)
    assume "\<not> exponent2 x < 53"
    then have "(2::rat) powi 53 \<le> 2 powi exponent2 x"
      by (intro power_int_increasing) simp_all
    also have "\<dots> \<le> x" using exponent2_bounds[OF xpos] by simp
    finally show False using assms(4) kb by linarith
  qed
  then have e52: "e \<le> 52" by (simp add: e_def)
  have q: "q = 2 powi (e - 52)"
    using xpos by (simp add: q_def quantum_def e_def)
  have qpos: "0 < q" unfolding q_def by (rule quantum_pos)
  have "x / q \<le> of_int k / q" using assms(4) qpos by (simp add: divide_right_mono)
  also have "\<dots> = of_int (k * 2 ^ nat (52 - e))"
    unfolding q by (rule over_fine_quantum[OF e52])
  finally have "round_half_even (x / q) \<le> k * 2 ^ nat (52 - e)"
    by (rule round_half_even_le)
  then have "(of_int (round_half_even (x / q)) :: rat) \<le> of_int (k * 2 ^ nat (52 - e))"
    by (simp only: of_int_le_iff)
  then have h: "y \<le> of_int (k * 2 ^ nat (52 - e)) * q"
    unfolding y_def using qpos by (simp only: mult_le_cancel_right_pos)
  have "of_int (k * 2 ^ nat (52 - e)) * q = of_int k / q * q"
    unfolding q using over_fine_quantum[OF e52, of k] by simp
  also have "\<dots> = of_int k" using qpos by simp
  finally have g: "of_int (k * 2 ^ nat (52 - e)) * q = of_int k" .
  from h have yk: "y \<le> of_int k" unfolding g .
  have "(of_int 0 :: rat) \<le> x / q" using xpos qpos by simp
  then have "0 \<le> round_half_even (x / q)" by (rule round_half_even_ge)
  then have y0: "0 \<le> y" unfolding y_def using qpos by simp
  have "y < 2 ^ 1024"
  proof -
    have "y < 2 powi 53" using yk kb by linarith
    also have "\<dots> \<le> 2 powi 1024" by (intro power_int_increasing) simp_all
    finally show ?thesis by simp
  qed
  then have "\<not> 2 ^ 1024 \<le> \<bar>y\<bar>" using y0 by simp
  moreover have "round64 x = (if 2 ^ 1024 \<le> \<bar>y\<bar> then signed_infinity y else Num y)"
    unfolding y_def q_def using False by (simp add: round64_cases)
  ultimately show ?thesis using y0 yk by simp
qed

lemma round64_between:
  assumes "1 \<le> a" "b < 2 ^ 53" "of_int a \<le> x" "x \<le> of_int b"
  shows "\<exists>y. round64 x = Num y \<and> of_int a \<le> y \<and> y \<le> of_int b"
proof -
  have ab: "a \<le> b" using assms(3,4) by (meson of_int_le_iff order_trans)
  have x0: "0 \<le> x" using assms(1,3) by (meson of_int_0_le_iff order_trans zero_le_one)
  from round64_upper[of b x] assms ab x0
  obtain y where y: "round64 x = Num y" "y \<le> of_int b" by auto
  from round64_lower[of a x] assms ab have "round64 x = Infinity \<or> (\<exists>y. round64 x = Num y \<and> of_int a \<le> y)"
    by auto
  with y show ?thesis by auto
qed

lemma round64_not_NaN: "round64 x \<noteq> NaN"
  by (auto simp: round64_def Let_def signed_infinity_def)

lemma round64_whole:
  assumes "0 \<le> k" "k < 2 ^ 53"
  shows "round64 (of_int k) = Num (of_int k)"
proof (cases "k = 0")
  case True
  then show ?thesis by (simp add: round64_def)
next
  case False
  then have "1 \<le> k" using assms(1) by simp
  from round64_between[OF this assms(2), of "of_int k"] show ?thesis by auto
qed

lemma floor_half_ge:
  fixes y :: rat
  assumes "of_int k \<le> y"
  shows "k \<le> \<lfloor>y + 1 / 2\<rfloor>"
proof -
  have "of_int k \<le> y + 1 / 2" using assms by simp
  then show ?thesis by (simp only: le_floor_iff)
qed

lemma floor_half_le:
  fixes y :: rat
  assumes "y \<le> of_int k"
  shows "\<lfloor>y + 1 / 2\<rfloor> \<le> k"
proof -
  have "y + 1 / 2 < of_int (k + 1)" using assms by simp
  then have "\<lfloor>y + 1 / 2\<rfloor> < k + 1" by (simp only: floor_less_iff)
  then show ?thesis by simp
qed

lemma tenth_lower:
  assumes "1 \<le> k" "k * 10 < 2 ^ 53" "of_int k \<le> x"
  shows "num_div (Math_round (num_mul (Num x) (Num 10))) (Num 10) = Infinity
     \<or> (\<exists>y. num_div (Math_round (num_mul (Num x) (Num 10))) (Num 10) = Num y \<and> of_int k \<le> y)"
proof -
  have k10: "1 \<le> k * 10" using assms(1) by simp
  have k53: "k < 2 ^ 53" using assms(1,2) by simp
  have "of_int (k * 10) \<le> x * 10" using assms(3) by simp
  from round64_lower[OF k10 assms(2) this]
  consider "round64 (x * 10) = Infinity"
    | y where "round64 (x * 10) = Num y" "of_int (k * 10) \<le> y" by blast
  then show ?thesis
  proof cases
    case 1
    then show ?thesis by (simp add: signed_infinity_def)
  next
    case 2
    define n where "n = \<lfloor>y + 1 / 2\<rfloor>"
    have "k * 10 \<le> n" unfolding n_def using 2(2) by (rule floor_half_ge)
    then have "(of_int (k * 10) :: rat) \<le> of_int n" by (simp only: of_int_le_iff)
    then have "of_int k \<le> (of_int n :: rat) / 10" by simp
    from round64_lower[OF assms(1) k53 this]
    have "round64 (of_int n / 10) = Infinity
       \<or> (\<exists>z. round64 (of_int n / 10) = Num z \<and> of_int k \<le> z)" .
    moreover have "num_div (Math_round (num_mul (Num x) (Num 10))) (Num 10)
        = round64 (of_int n / 10)"
      using 2(1) by (simp add: n_def)
    ultimately show ?thesis by simp
  qed
qed

lemma tenth_upper:
  assumes "1 \<le> k" "k * 10 < 2 ^ 53" "0 \<le> x" "x \<le> of_int k"
  shows "\<exists>y. num_div (Math_round (num_mul (Num x) (Num 10))) (Num 10) = Num y
           \<and> 0 \<le> y \<and> y \<le> of_int k"
proof -
  have k10: "1 \<le> k * 10" using assms(1) by simp
  have k53: "k < 2 ^ 53" using assms(1,2) by simp
  have "0 \<le> x * 10" "x * 10 \<le> of_int (k * 10)" using assms(3,4) by simp_all
  from round64_upper[OF k10 assms(2) this]
  obtain y where y: "round64 (x * 10) = Num y" "0 \<le> y" "y \<le> of_int (k * 10)" by blast
  define n where "n = \<lfloor>y + 1 / 2\<rfloor>"
  have "n \<le> k * 10" unfolding n_def using y(3) by (rule floor_half_le)
  then have "(of_int n :: rat) \<le> of_int (k * 10)" by (simp only: of_int_le_iff)
  then have hi: "(of_int n :: rat) / 10 \<le> of_int k" by simp
  have "(of_int 0 :: rat) \<le> y" using y(2) by simp
  then have "0 \<le> n" unfolding n_def by (rule floor_half_ge)
  then have lo: "0 \<le> (of_int n :: rat) / 10" by simp
  from round64_upper[OF assms(1) k53 lo hi]
  have "\<exists>z. round64 (of_int n / 10) = Num z \<and> 0 \<le> z \<and> z \<le> of_int k" .
  moreover have "num_div (Math_round (num_mul (Num x) (Num 10))) (Num 10)
      = round64 (of_int n / 10)"
    using y(1) by (simp add: n_def)
  ultimately show ?thesis by simp
qed

lemma tenth_Infinity:
  "num_div (Math_round (num_mul Infinity (Num 10))) (Num 10) = Infinity"
  by (simp add: signed_infinity_def)

lemma Math_max_one:
  "v \<noteq> NaN \<Longrightarrow>
     Math_max v (Num 1) = Infinity \<or> (\<exists>x. Math_max v (Num 1) = Num x \<and> 1 \<le> x)"
  by (cases v) auto

lemma times_eight_not_NaN: "v \<noteq> NaN \<Longrightarrow> num_mul v (Num 8) \<noteq> NaN"
  by (cases v) (simp_all add: round64_not_NaN signed_infinity_def)

lemma reciprocal_not_NaN: "v \<noteq> NaN \<Longrightarrow> num_div (Num 1) v \<noteq> NaN"
  by (cases v) (simp_all add: round64_not_NaN signed_infinity_def)

lemma over_thousand_not_NaN: "v \<noteq> NaN \<Longrightarrow> num_div v (Num 1000) \<noteq> NaN"
  by (cases v) (simp_all add: round64_not_NaN signed_infinity_def)

lemma difference_not_NaN: "num_sub (Num a) (Num b) \<noteq> NaN"
  by (simp add: num_sub_def round64_not_NaN)

lemma measured_speed_cases:
  "measured_speed run = Infinity \<or> (\<exists>x. measured_speed run = Num x \<and> 1 \<le> x)"
  unfolding measured_speed_def Let_def
  by (intro Math_max_one times_eight_not_NaN reciprocal_not_NaN over_thousand_not_NaN
        difference_not_NaN)

lemma testInternetSpeed_success:
  "speed_test_try run results = Inr (speed, time) \<Longrightarrow>
     testInternetSpeed run results prev
       = prev\<lparr>internetSpeed := Some (num_div (Math_round (num_mul speed (Num 10))) (Num 10)),
              estimatedTime := Some time\<rparr>"
  by (simp add: testInternetSpeed_def)

lemma testInternetSpeed_failure:
  "speed_test_try run results = Inl e \<Longrightarrow>
     testInternetSpeed run results prev
       = prev\<lparr>internetSpeed :=
               Some (num_div
                       (Math_round
                          (num_mul (num_add (Num 25) (num_mul (Num (Math_random run)) (Num 50)))
                             (Num 10)))
                       (Num 10))\<rparr>"
  by (simp add: testInternetSpeed_def)

lemma speed_test_try_rejected:
  "fetch_settles run = Inl e \<Longrightarrow> speed_test_try run results = Inl e"
  by (simp add: speed_test_try_def)

lemma speed_test_try_speed:
  "speed_test_try run results = Inr (speed, time) \<Longrightarrow> speed = measured_speed run"
  by (cases "fetch_settles run")
     (auto simp: speed_test_try_def Let_def and_then_def split: option.splits if_splits sum.splits)

lemma simulated_bounds:
  assumes "0 \<le> r" "r < 1"
  shows "\<exists>y. num_div
               (Math_round (num_mul (num_add (Num 25) (num_mul (Num r) (Num 50))) (Num 10)))
               (Num 10) = Num y
            \<and> 25 \<le> y \<and> y \<le> 75"
proof -
  have "0 \<le> r * 50" "r * 50 \<le> of_int 50" using assms by simp_all
  from round64_upper[OF _ _ this]
  obtain p where p: "round64 (r * 50) = Num p" "0 \<le> p" "p \<le> 50" by auto
  have "of_int 25 \<le> 25 + p" "25 + p \<le> of_int 75" using p(2,3) by simp_all
  from round64_between[OF _ _ this]
  obtain s where s: "round64 (25 + p) = Num s" "of_int 25 \<le> s" "s \<le> of_int 75" by auto
  have sim: "num_add (Num 25) (num_mul (Num r) (Num 50)) = Num s"
    using p(1) s(1) by simp
  have s0: "0 \<le> s" using s(2) by simp
  from tenth_upper[OF _ _ s0 s(3)]
  obtain y where y: "num_div (Math_round (num_mul (Num s) (Num 10))) (Num 10) = Num y"
    "y \<le> of_int 75" by auto
  from tenth_lower[OF _ _ s(2)] y(1) have "of_int 25 \<le> y" by auto
  with y sim show ?thesis by simp
qed

lemma render_time_NaN: "render_time host NaN = js ''NaNm NaNs''"
  by (simp add: render_time_def js_def)

lemma speed_test_try_string:
  assumes "fetch_settles run = Inr u" "totalSize results = Some (JString s)" "s \<noteq> []"
  shows "speed_test_try run results
           = Inr (measured_speed run,
                  render_time (host_string run)
                    (num_div (num_mul (parseFloat (replace_non_numeric s)) (Num 8))
                       (measured_speed run)))"
  using assms by (simp add: speed_test_try_def sizeInMB_def Let_def)

lemma measured_speed_not_NaN: "measured_speed run \<noteq> NaN"
  using measured_speed_cases[of run] by auto

lemma filter_takeWhile_not: "filter P (takeWhile (\<lambda>c. \<not> P c) s) = []"
  by (induction s) simp_all

lemma filter_takeWhile_same: "filter P (takeWhile P r) = takeWhile P r"
  by (induction r) simp_all

lemma filter_split_at: "filter P s = filter P (takeWhile Q s) @ filter P (dropWhile Q s)"
  by (induction s) simp_all

lemma filter_single_run:
  assumes "\<forall>c \<in> set (dropWhile P (dropWhile (\<lambda>c. \<not> P c) s)). \<not> P c"
  shows "filter P s = takeWhile P (dropWhile (\<lambda>c. \<not> P c) s)"
proof -
  let ?r = "dropWhile (\<lambda>c. \<not> P c) s"
  have "filter P (dropWhile P ?r) = []"
    using assms by (simp only: filter_empty_conv) 
  then have "filter P ?r = takeWhile P ?r"
    using filter_split_at[of P ?r P] by (simp only: filter_takeWhile_same append_Nil2)
  then show ?thesis
    using filter_split_at[of P s "\<lambda>c. \<not> P c"] by (simp only: filter_takeWhile_not append_Nil)
qed

section \<open>Frame properties of the results record\<close>

lemma spread_no_speed:
  "internetSpeed n = None \<Longrightarrow> estimatedTime n = None \<Longrightarrow> compilationAnalysis n = None \<Longrightarrow>
     internetSpeed (spread prev n) = internetSpeed prev
     \<and> estimatedTime (spread prev n) = estimatedTime prev
     \<and> compilationAnalysis (spread prev n) = compilationAnalysis prev"
  by (simp add: spread_def or_else_def)

lemma analyzeFiles_docker_frame:
  "analyzeFiles_docker parser genAI f n = Inr n' \<Longrightarrow>
     internetSpeed n' = internetSpeed n \<and> estimatedTime n' = estimatedTime n
     \<and> compilationAnalysis n' = compilationAnalysis n"
  by (auto simp: analyzeFiles_docker_def and_then_def split: option.splits sum.splits)

lemma analyzeFiles_requirements_frame:
  "analyzeFiles_requirements parser genAI f n = Inr n' \<Longrightarrow>
     internetSpeed n' = internetSpeed n \<and> estimatedTime n' = estimatedTime n
     \<and> compilationAnalysis n' = compilationAnalysis n"
  by (auto simp: analyzeFiles_requirements_def and_then_def split: option.splits sum.splits)

lemma analyzeFiles_frame:
  "internetSpeed (analyzeFiles parser genAI df rf prev) = internetSpeed prev
   \<and> estimatedTime (analyzeFiles parser genAI df rf prev) = estimatedTime prev
   \<and> compilationAnalysis (analyzeFiles parser genAI df rf prev) = compilationAnalysis prev"
proof (cases "df = None \<and> rf = None")
  case True
  then show ?thesis by (simp add: analyzeFiles_def)
next
  case False
  show ?thesis
  proof (cases "and_then (analyzeFiles_docker parser genAI df no_results)
                  (analyzeFiles_requirements parser genAI rf)")
    case (Inl e)
    with False show ?thesis by (simp add: analyzeFiles_def)
  next
    case (Inr n)
    then obtain m where m: "analyzeFiles_docker parser genAI df no_results = Inr m"
      "analyzeFiles_requirements parser genAI rf m = Inr n"
      by (cases "analyzeFiles_docker parser genAI df no_results") auto
    from analyzeFiles_docker_frame[OF m(1)] analyzeFiles_requirements_frame[OF m(2)]
    have "internetSpeed n = None" "estimatedTime n = None" "compilationAnalysis n = None"
      by (simp_all add: no_results_def)
    from spread_no_speed[OF this, of prev] Inr False show ?thesis
      by (simp add: analyzeFiles_def)
  qed
qed

lemma analyzeCompilation_frame:
  "dockerSteps (analyzeCompilation parser genAI df rf caps prev) = dockerSteps prev
   \<and> requirements (analyzeCompilation parser genAI df rf caps prev) = requirements prev
   \<and> totalSize (analyzeCompilation parser genAI df rf caps prev) = totalSize prev
   \<and> internetSpeed (analyzeCompilation parser genAI df rf caps prev) = internetSpeed prev
   \<and> estimatedTime (analyzeCompilation parser genAI df rf caps prev) = estimatedTime prev"
  by (simp add: analyzeCompilation_def split: sum.splits)

lemma testInternetSpeed_frame:
  "dockerSteps (testInternetSpeed run results prev) = dockerSteps prev
   \<and> requirements (testInternetSpeed run results prev) = requirements prev
   \<and> totalSize (testInternetSpeed run results prev) = totalSize prev
   \<and> compilationAnalysis (testInternetSpeed run results prev) = compilationAnalysis prev"
  by (simp add: testInternetSpeed_def Let_def split: sum.splits prod.splits)

section \<open>Evaluation on the sample inputs\<close>

lemmas string_eval = js_def fence_open_def fence_close_def lbrace_def rbrace_def dquote_def
  match_fence_at_def match_curly_at_def sublist_code trim_def isWhiteSpace_def

lemmas speed_eval = floor_quotient ceiling_quotient round64_def quantum_def exponent2_def
  round_half_even_def bit_length_0 bit_length_pos num_sub_def
  testInternetSpeed_def speed_test_try_def measured_speed_def sizeInMB_def
  replace_non_numeric_def numeric_unit_def isDigit_def parseFloat_def parse_unsigned_def
  exponent_part_def scale10_def digits_value_def digit_value_def render_time_def
  int_to_string_def nat_to_string_small nat_to_string_large truncate_def signed_infinity_def
  results_with_size_def no_results_def run_resolved_def run_rejected_def host_failure_def
  no_host_string_def isWhiteSpace_def js_def Let_def

lemma jsonText_response: "jsonText (response_text (js ''3 MB'')) = response_text (js ''3 MB'')"
  by (simp add: jsonText_def extractJSON_def response_text_def string_eval)

lemma jsonText_response_empty: "jsonText (response_text []) = response_text []"
  by (simp add: jsonText_def extractJSON_def response_text_def string_eval)

text \<open>
  A total size of \<^verbatim>\<open>10.0 MB\<close> and a download that takes 1300 ms: the speed is
  \<open>8 / 1.3\<close>, and \<open>10 * 8\<close> over it is \<open>13.000000000000002\<close> in binary64, so the estimate
  is rounded up to 14 seconds.
\<close>

lemma rounded_estimate_example:
  "estimatedTime (testInternetSpeed (run_resolved 200 1300) (results_with_size (js ''10.0 MB''))
     no_results) = Some (js ''14 seconds'')"
  by (simp add: speed_eval)

text \<open>
  With \<^verbatim>\<open>Math.random()\<close> returning its largest value \<open>1 - 2\<^sup>-\<^sup>5\<^sup>3\<close>, the product with 50 is already
  50 in binary64, and the simulated speed is 75 before any rounding to a decimal place.
\<close>

lemma simulated_speed_reaches_75:
  "num_add (Num 25) (num_mul (Num (9007199254740991 / 9007199254740992)) (Num 50)) = Num 75"
  by (simp add: speed_eval)

section \<open>The claims\<close>

text \<open>
  Claim C1. When no credential is configured (\<^verbatim>\<open>genAI\<close> is \<open>None\<close>), each of the three
  analysis operations returns exactly its static fallback value, for every input text,
  every parser and every capabilities record; so any two such calls return equal results.
\<close>

theorem analysis_without_credential:
  "analyzeDockerfile parser None dockerfileContent = Inr getFallbackDockerAnalysis
   \<and> analyzeRequirements parser None requirementsContent = Inr getFallbackRequirementsAnalysis
   \<and> analyzeCompilationTime parser None dockerfileContent requirementsContent capabilities
       = Inr getFallbackCompilationAnalysis
   \<and> analyzeDockerfile parser None dockerfileContent = analyzeDockerfile parser' None content'
   \<and> analyzeRequirements parser None requirementsContent
       = analyzeRequirements parser' None content'
   \<and> analyzeCompilationTime parser None dockerfileContent requirementsContent capabilities
       = analyzeCompilationTime parser' None content' content'' capabilities'"
  by (simp add: analyzeDockerfile_def analyzeRequirements_def analyzeCompilationTime_def)

text \<open>
  Claim C2. For every text: if it contains a fenced JSON block, it has a first such block,
  and the extraction returns the trimmed interior of that block; if it contains none but
  has a \<^verbatim>\<open>{\<close> with a later \<^verbatim>\<open>}\<close>, it has a span from its first \<^verbatim>\<open>{\<close> to its last \<^verbatim>\<open>}\<close>, and the
  extraction returns that span; if it has neither, the extraction returns \<^verbatim>\<open>null\<close>.
\<close>

theorem extractJSON_cases:
  "(has_fenced_block text \<longrightarrow> (\<exists>pre body post. first_fenced_block text pre body post))
   \<and> (first_fenced_block text pre body post \<longrightarrow> extractJSON text = Some (trim body))
   \<and> (has_curly_span text \<longrightarrow> (\<exists>a b c. widest_curly_span text a b c))
   \<and> (\<not> has_fenced_block text \<and> widest_curly_span text a b c
         \<longrightarrow> extractJSON text = Some ([lbrace] @ b @ [rbrace]))
   \<and> (\<not> has_fenced_block text \<and> \<not> has_curly_span text \<longrightarrow> extractJSON text = None)"
proof (intro conjI impI)
  assume "has_fenced_block text"
  then obtain g where "search match_fence_at text = Some g"
    using search_fence_None_iff[of "text"] by auto
  from search_fence_SomeD[OF this]
  show "\<exists>pre body post. first_fenced_block text pre body post"
    unfolding first_fenced_block_def by blast
next
  assume "first_fenced_block text pre body post"
  then show "extractJSON text = Some (trim body)" by (rule extractJSON_fenced)
next
  assume "has_curly_span text"
  from curly_span_first_last[OF this]
  show "\<exists>a b c. widest_curly_span text a b c"
    unfolding widest_curly_span_def .
next
  assume "\<not> has_fenced_block text \<and> widest_curly_span text a b c"
  then show "extractJSON text = Some ([lbrace] @ b @ [rbrace])"
    using extractJSON_curly by blast
next
  assume "\<not> has_fenced_block text \<and> \<not> has_curly_span text"
  then show "extractJSON text = None" using extractJSON_neither by blast
qed

text \<open>
  The three cases on sample texts: a fenced block followed by text with braces, an
  upper-case fence followed by a stray closing brace, and a text whose only braces are in
  the wrong order.
\<close>

theorem extractJSON_cases_witness:
  "has_fenced_block sample_fenced
   \<and> first_fenced_block sample_fenced (js ''Here: '') ([0xA] @ js ''{ x: [1, 2] } '' @ [0xA])
     (js '' and {more}'')
   \<and> extractJSON sample_fenced = Some (js ''{ x: [1, 2] }'')
   \<and> \<not> has_fenced_block sample_curly
   \<and> has_curly_span sample_curly
   \<and> widest_curly_span sample_curly (js ''```JSON '') (js '' a: {} } ``` '') (js '' tail'')
   \<and> extractJSON sample_curly = Some (js ''{ a: {} } ``` }'')
   \<and> \<not> has_fenced_block sample_plain \<and> \<not> has_curly_span sample_plain
   \<and> extractJSON sample_plain = None"
proof -
  have f: "first_fenced_block sample_fenced (js ''Here: '') ([0xA] @ js ''{ x: [1, 2] } '' @ [0xA])
     (js '' and {more}'')"
    by (simp add: first_fenced_block_def sample_fenced_def string_eval)
  have t: "trim ([0xA] @ js ''{ x: [1, 2] } '' @ [0xA]) = js ''{ x: [1, 2] }''"
    by (simp add: string_eval)
  have c: "\<not> has_fenced_block sample_curly"
    by (simp add: search_fence_None_iff[symmetric] sample_curly_def string_eval)
  have w: "widest_curly_span sample_curly (js ''```JSON '') (js '' a: {} } ``` '') (js '' tail'')"
    by (simp add: widest_curly_span_def sample_curly_def string_eval)
  have p: "\<not> has_fenced_block sample_plain \<and> \<not> has_curly_span sample_plain"
    by (simp add: search_fence_None_iff[symmetric] search_curly_None_iff[symmetric]
          sample_plain_def string_eval)
  have "search match_fence_at sample_fenced \<noteq> None"
    by (simp add: sample_fenced_def string_eval)
  then have h: "has_fenced_block sample_fenced"
    by (simp add: search_fence_None_iff)
  have "search match_curly_at sample_curly \<noteq> None"
    by (simp add: sample_curly_def string_eval)
  then have k: "has_curly_span sample_curly"
    by (simp add: search_curly_None_iff)
  from f t c w p h k
    extractJSON_cases[of sample_fenced "js ''Here: ''" "[0xA] @ js ''{ x: [1, 2] } '' @ [0xA]"
      "js '' and {more}''"]
    extractJSON_cases[of sample_curly _ _ _ "js ''```JSON ''" "js '' a: {} } ``` ''" "js '' tail''"]
    extractJSON_cases[of sample_plain]
  show ?thesis by (simp add: lbrace_def rbrace_def js_def)
qed

text \<open>
  Claim C3. The claim is that a total size without a parseable number makes the speed test
  leave the download-time field out. The code has no such guard: when \<^verbatim>\<open>fetch\<close> resolves and
  the recorded total size is a non-empty string from which no number can be read, the
  field is set to the string \<^verbatim>\<open>NaNm NaNs\<close>.
\<close>

theorem speed_test_unparseable_size:
  assumes "fetch_settles run = Inr u"
    and "totalSize results = Some (JString s)"
    and "s \<noteq> []"
    and "parseFloat (replace_non_numeric s) = NaN"
  shows "estimatedTime (testInternetSpeed run results prev) = Some (js ''NaNm NaNs'')"
  using speed_test_try_string[OF assms(1-3)] assms(4)
  by (simp add: testInternetSpeed_def render_time_NaN)

text \<open>The total size \<^verbatim>\<open>unknown\<close>, on a run whose download takes a second.\<close>

theorem speed_test_unparseable_size_witness:
  "fetch_settles (run_resolved 200 1000) = Inr 200
   \<and> totalSize (results_with_size (js ''unknown'')) = Some (JString (js ''unknown''))
   \<and> js ''unknown'' \<noteq> []
   \<and> parseFloat (replace_non_numeric (js ''unknown'')) = NaN
   \<and> estimatedTime (testInternetSpeed (run_resolved 200 1000) (results_with_size (js ''unknown''))
         no_results)
       = Some (js ''NaNm NaNs'')"
proof -
  have a: "fetch_settles (run_resolved 200 1000) = Inr 200"
    "totalSize (results_with_size (js ''unknown'')) = Some (JString (js ''unknown''))"
    "js ''unknown'' \<noteq> []"
    "parseFloat (replace_non_numeric (js ''unknown'')) = NaN"
    by (simp_all add: speed_eval)
  from speed_test_unparseable_size[OF a, of no_results] a show ?thesis by simp
qed

text \<open>
  Claim C4, as amended. When the remote model returns a text whose extraction parses, the
  manifest operation returns the parsed value itself if that value carries a truthy
  \<^verbatim>\<open>requirements\<close> field and a truthy \<^verbatim>\<open>totalSize\<close> field, and the static fallback in every
  other case, a missing field and a field with a falsy value (\<^verbatim>\<open>null\<close>, \<^verbatim>\<open>false\<close>, zero, the
  empty string) alike.
\<close>

theorem requirements_verbatim_when_truthy:
  assumes "model (requirements_prompt content) = Inr text"
    and "parser (jsonText text) = Some parsed"
  shows "(field_truthy parsed (js ''requirements'') \<and> field_truthy parsed (js ''totalSize'')
            \<longrightarrow> analyzeRequirements parser (Some model) content = Inr parsed)
     \<and> (\<not> (field_truthy parsed (js ''requirements'') \<and> field_truthy parsed (js ''totalSize''))
            \<longrightarrow> analyzeRequirements parser (Some model) content
                  = Inr getFallbackRequirementsAnalysis)"
  using analyzeRequirements_parsed[of model content "text" parser parsed] assms by simp

text \<open>A response with an empty item list and the total size \<^verbatim>\<open>3 MB\<close> is returned as parsed.\<close>

theorem requirements_verbatim_when_truthy_witness:
  "replies (response_text (js ''3 MB'')) (requirements_prompt []) = Inr (response_text (js ''3 MB''))
   \<and> parses_only (response_text (js ''3 MB'')) (response_value (js ''3 MB''))
         (jsonText (response_text (js ''3 MB''))) = Some (response_value (js ''3 MB''))
   \<and> field_truthy (response_value (js ''3 MB'')) (js ''requirements'')
   \<and> field_truthy (response_value (js ''3 MB'')) (js ''totalSize'')
   \<and> analyzeRequirements (parses_only (response_text (js ''3 MB'')) (response_value (js ''3 MB'')))
         (Some (replies (response_text (js ''3 MB'')))) [] = Inr (response_value (js ''3 MB''))
   \<and> replies (response_text []) (requirements_prompt []) = Inr (response_text [])
   \<and> parses_only (response_text []) (response_value []) (jsonText (response_text []))
       = Some (response_value [])
   \<and> \<not> field_truthy (response_value []) (js ''totalSize'')
   \<and> analyzeRequirements (parses_only (response_text []) (response_value []))
         (Some (replies (response_text []))) [] = Inr getFallbackRequirementsAnalysis"
proof -
  have a': "replies (response_text []) (requirements_prompt []) = Inr (response_text [])"
    by (simp add: replies_def)
  have b': "parses_only (response_text []) (response_value []) (jsonText (response_text []))
       = Some (response_value [])"
    by (simp add: parses_only_def jsonText_response_empty)
  have c': "\<not> field_truthy (response_value []) (js ''totalSize'')"
    by (simp add: field_truthy_def response_value_def js_def)
  have a: "replies (response_text (js ''3 MB'')) (requirements_prompt [])
             = Inr (response_text (js ''3 MB''))"
    by (simp add: replies_def)
  have b: "parses_only (response_text (js ''3 MB'')) (response_value (js ''3 MB''))
         (jsonText (response_text (js ''3 MB''))) = Some (response_value (js ''3 MB''))"
    by (simp add: parses_only_def jsonText_response)
  have c: "field_truthy (response_value (js ''3 MB'')) (js ''requirements'')"
    "field_truthy (response_value (js ''3 MB'')) (js ''totalSize'')"
    by (simp_all add: field_truthy_def response_value_def js_def)
  from requirements_verbatim_when_truthy[of "replies (response_text (js ''3 MB''))" "[]"
      "response_text (js ''3 MB'')"
      "parses_only (response_text (js ''3 MB'')) (response_value (js ''3 MB''))"
      "response_value (js ''3 MB'')"]
    requirements_verbatim_when_truthy[of "replies (response_text [])" "[]" "response_text []"
      "parses_only (response_text []) (response_value [])" "response_value []"]
    a b c a' b' c'
  show ?thesis by simp
qed

text \<open>
  Against the claim as stated: a response that carries both fields, the total size being
  the empty string, is not returned; the operation returns the fallback.
\<close>

theorem requirements_falsy_field_counterexample:
  "replies (response_text []) (requirements_prompt []) = Inr (response_text [])
   \<and> parses_only (response_text []) (response_value []) (jsonText (response_text []))
       = Some (response_value [])
   \<and> carries (response_value []) (js ''requirements'')
   \<and> carries (response_value []) (js ''totalSize'')
   \<and> analyzeRequirements (parses_only (response_text []) (response_value []))
         (Some (replies (response_text []))) [] = Inr getFallbackRequirementsAnalysis
   \<and> getFallbackRequirementsAnalysis \<noteq> response_value []"
proof -
  have a: "replies (response_text []) (requirements_prompt []) = Inr (response_text [])"
    by (simp add: replies_def)
  have b: "parses_only (response_text []) (response_value []) (jsonText (response_text []))
       = Some (response_value [])"
    by (simp add: parses_only_def jsonText_response_empty)
  have c: "carries (response_value []) (js ''requirements'')"
    "carries (response_value []) (js ''totalSize'')"
    by (simp_all add: carries_def response_value_def js_def)
  have d: "\<not> field_truthy (response_value []) (js ''totalSize'')"
    by (simp add: field_truthy_def response_value_def js_def)
  have e: "getFallbackRequirementsAnalysis \<noteq> response_value []"
    by (simp add: getFallbackRequirementsAnalysis_def response_value_def)
  from analyzeRequirements_parsed[of "replies (response_text [])" "[]" "response_text []"
      "parses_only (response_text []) (response_value [])" "response_value []"] a b c d e
  show ?thesis by simp
qed

text \<open>
  Claim C5. No analysis operation ever throws (its promise is never rejected), whatever
  the parser, the remote model and the input; and whenever the remote model fails (the
  call raises an error, or the response does not parse), the operation returns its static
  fallback.
\<close>

theorem analysis_never_throws:
  "(\<exists>v. analyzeDockerfile parser genAI d = Inr v)
   \<and> (\<exists>v. analyzeRequirements parser genAI r = Inr v)
   \<and> (\<exists>v. analyzeCompilationTime parser genAI d r caps = Inr v)
   \<and> (remote_fails model (dockerfile_prompt d) parser \<longrightarrow>
        analyzeDockerfile parser (Some model) d = Inr getFallbackDockerAnalysis)
   \<and> (remote_fails model (requirements_prompt r) parser \<longrightarrow>
        analyzeRequirements parser (Some model) r = Inr getFallbackRequirementsAnalysis)
   \<and> (remote_fails model (compilation_prompt d r caps) parser \<longrightarrow>
        analyzeCompilationTime parser (Some model) d r caps = Inr getFallbackCompilationAnalysis)"
proof (intro conjI impI)
  show "\<exists>v. analyzeDockerfile parser genAI d = Inr v"
    by (rule analyzeDockerfile_total)
  show "\<exists>v. analyzeRequirements parser genAI r = Inr v"
    by (rule analyzeRequirements_total)
  show "\<exists>v. analyzeCompilationTime parser genAI d r caps = Inr v"
    by (rule analyzeCompilationTime_total)
next
  assume "remote_fails model (dockerfile_prompt d) parser"
  then show "analyzeDockerfile parser (Some model) d = Inr getFallbackDockerAnalysis"
    by (rule analyzeDockerfile_fails)
next
  assume "remote_fails model (requirements_prompt r) parser"
  then show "analyzeRequirements parser (Some model) r = Inr getFallbackRequirementsAnalysis"
    by (rule analyzeRequirements_fails)
next
  assume "remote_fails model (compilation_prompt d r caps) parser"
  then show "analyzeCompilationTime parser (Some model) d r caps
               = Inr getFallbackCompilationAnalysis"
    by (rule analyzeCompilationTime_fails)
qed

text \<open>A remote model that rejects every call, and one whose answer does not parse.\<close>

theorem analysis_never_throws_witness:
  "remote_fails rejects (dockerfile_prompt []) parses_nothing
   \<and> remote_fails (replies (js ''Sorry, no JSON today'')) (requirements_prompt []) parses_nothing
   \<and> remote_fails rejects (compilation_prompt [] [] default_capabilities) parses_nothing
   \<and> analyzeDockerfile parses_nothing (Some rejects) [] = Inr getFallbackDockerAnalysis
   \<and> analyzeRequirements parses_nothing (Some (replies (js ''Sorry, no JSON today''))) []
       = Inr getFallbackRequirementsAnalysis
   \<and> analyzeCompilationTime parses_nothing (Some rejects) [] [] default_capabilities
       = Inr getFallbackCompilationAnalysis"
proof -
  have a: "remote_fails rejects (dockerfile_prompt []) parses_nothing"
    "remote_fails (replies (js ''Sorry, no JSON today'')) (requirements_prompt []) parses_nothing"
    "remote_fails rejects (compilation_prompt [] [] default_capabilities) parses_nothing"
    by (simp_all add: remote_fails_def rejects_def replies_def parses_nothing_def)
  from a
    analysis_never_throws[where parser = parses_nothing and model = rejects and d = "[]"
      and r = "[]" and caps = default_capabilities]
    analysis_never_throws[where parser = parses_nothing
      and model = "replies (js ''Sorry, no JSON today'')" and r = "[]"]
  show ?thesis by simp
qed

text \<open>
  Claim C6, as amended. For every run of the speed test (with \<^verbatim>\<open>Math.random()\<close> in
  \<open>[0, 1)\<close>) the throughput written to the results, rounded to one decimal place, is at
  least 1; and when the promise of \<^verbatim>\<open>fetch\<close> is rejected it lies in the closed interval
  \<open>[25, 75]\<close>. All arithmetic is binary64.
\<close>

theorem speed_test_throughput_bounds:
  assumes "0 \<le> Math_random run" "Math_random run < 1"
  shows "(\<exists>v. internetSpeed (testInternetSpeed run results prev) = Some v \<and> num_ge v (Num 1))
     \<and> (fetch_settles run = Inl e \<longrightarrow>
          (\<exists>v. internetSpeed (testInternetSpeed run results prev) = Some v
               \<and> num_ge v (Num 25) \<and> num_ge (Num 75) v))"
proof (intro conjI impI)
  from simulated_bounds[OF assms]
  obtain y where y:
    "num_div
       (Math_round
          (num_mul (num_add (Num 25) (num_mul (Num (Math_random run)) (Num 50))) (Num 10)))
       (Num 10) = Num y" "25 \<le> y" "y \<le> 75" by blast
  show "\<exists>v. internetSpeed (testInternetSpeed run results prev) = Some v \<and> num_ge v (Num 1)"
  proof (cases "speed_test_try run results")
    case (Inl err)
    have "1 \<le> y" using y(2) by simp
    with y(1) show ?thesis
      by (simp add: testInternetSpeed_failure[OF Inl] num_ge_def not_less)
  next
    case (Inr p)
    obtain speed time where p: "p = (speed, time)" by (cases p)
    with Inr have t: "speed_test_try run results = Inr (speed, time)" by simp
    from speed_test_try_speed[OF t] measured_speed_cases[of run]
    consider "speed = Infinity" | x where "speed = Num x" "1 \<le> x" by auto
    then show ?thesis
    proof cases
      case 1
      then show ?thesis
        by (simp add: testInternetSpeed_success[OF t] signed_infinity_def num_ge_def)
    next
      case 2
      have "of_int 1 \<le> x" using 2(2) by simp
      from tenth_lower[OF _ _ this]
      have "num_div (Math_round (num_mul (Num x) (Num 10))) (Num 10) = Infinity
         \<or> (\<exists>z. num_div (Math_round (num_mul (Num x) (Num 10))) (Num 10) = Num z \<and> 1 \<le> z)"
        by simp
      then show ?thesis
        unfolding testInternetSpeed_success[OF t] 2(1) num_ge_def
        by (auto simp: not_less simp del: num_mul.simps num_div.simps)
    qed
  qed
  assume f: "fetch_settles run = Inl e"
  show "\<exists>v. internetSpeed (testInternetSpeed run results prev) = Some v
           \<and> num_ge v (Num 25) \<and> num_ge (Num 75) v"
    using y
    by (simp add: testInternetSpeed_failure[OF speed_test_try_rejected[OF f]] num_ge_def not_less)
qed

text \<open>
  A rejected \<^verbatim>\<open>fetch\<close> with \<^verbatim>\<open>Math.random()\<close> returning \<open>1 / 2\<close> gives 50; a download that
  takes a second gives a value that is at least 1.
\<close>

theorem speed_test_throughput_bounds_witness:
  "0 \<le> Math_random (run_rejected (1 / 2)) \<and> Math_random (run_rejected (1 / 2)) < 1
   \<and> fetch_settles (run_rejected (1 / 2)) = Inl host_failure
   \<and> internetSpeed (testInternetSpeed (run_rejected (1 / 2)) no_results no_results) = Some (Num 50)
   \<and> (\<exists>v. internetSpeed (testInternetSpeed (run_resolved 200 1000) no_results no_results) = Some v
          \<and> num_ge v (Num 1))
   \<and> (\<exists>v. internetSpeed (testInternetSpeed (run_rejected (1 / 2)) no_results no_results) = Some v
          \<and> num_ge v (Num 25) \<and> num_ge (Num 75) v)"
proof -
  have a: "0 \<le> Math_random (run_rejected (1 / 2))" "Math_random (run_rejected (1 / 2)) < 1"
    "0 \<le> Math_random (run_resolved 200 1000)" "Math_random (run_resolved 200 1000) < 1"
    "fetch_settles (run_rejected (1 / 2)) = Inl host_failure"
    by (simp_all add: run_rejected_def run_resolved_def)
  have b: "internetSpeed (testInternetSpeed (run_rejected (1 / 2)) no_results no_results)
             = Some (Num 50)"
    by (simp add: speed_eval)
  from a b
    speed_test_throughput_bounds[OF a(1,2), of no_results no_results host_failure]
    speed_test_throughput_bounds[OF a(3,4), of no_results no_results host_failure]
  show ?thesis by simp
qed

text \<open>
  Against the claim as stated, which asks for the half-open interval \<open>[25, 75)\<close> on every
  failed \<^verbatim>\<open>fetch\<close>, a non-success status included. A \<^verbatim>\<open>fetch\<close> that resolves with status 500
  is a failed one in that sense, but the code never looks at the response: with a second
  between the two clock readings the run takes the measured path and reports 8, below 25.
  And on a rejected \<^verbatim>\<open>fetch\<close>, \<^verbatim>\<open>Math.random()\<close> returning \<open>1023 / 1024\<close> gives the simulated
  speed \<open>74.951171875\<close>, which rounds to 75: the upper end is attained.
\<close>

theorem speed_test_failed_fetch_counterexample:
  "fetch_fails (run_resolved 500 1000)
   \<and> internetSpeed (testInternetSpeed (run_resolved 500 1000) no_results no_results)
       = Some (Num 8)
   \<and> \<not> num_ge (Num 8) (Num 25)
   \<and> fetch_fails (run_rejected (1023 / 1024))
   \<and> 0 \<le> Math_random (run_rejected (1023 / 1024))
   \<and> Math_random (run_rejected (1023 / 1024)) < 1
   \<and> internetSpeed (testInternetSpeed (run_rejected (1023 / 1024)) no_results no_results)
       = Some (Num 75)
   \<and> \<not> num_lt (Num 75) (Num 75)"
  by (simp add: fetch_fails_def num_ge_def speed_eval)

text \<open>
  Claim C7. The claim is that the download-time estimate is computed whenever a total size
  is known, also when \<^verbatim>\<open>fetch\<close> failed. The code computes it only on the path where \<^verbatim>\<open>fetch\<close>
  resolves: when \<^verbatim>\<open>fetch\<close> is rejected the field keeps whatever the record held before,
  whatever the total size.
\<close>

theorem speed_test_failure_keeps_estimate:
  assumes "fetch_settles run = Inl e"
  shows "estimatedTime (testInternetSpeed run results prev) = estimatedTime prev"
  by (simp add: testInternetSpeed_failure[OF speed_test_try_rejected[OF assms]])

text \<open>
  With the total size \<^verbatim>\<open>51.0 MB\<close> and no estimate so far, a rejected \<^verbatim>\<open>fetch\<close> leaves the
  estimate absent, where a resolved one writes \<^verbatim>\<open>51 seconds\<close>.
\<close>

theorem speed_test_failure_keeps_estimate_witness:
  "fetch_settles (run_rejected (1 / 2)) = Inl host_failure
   \<and> totalSize (results_with_size (js ''51.0 MB'')) = Some (JString (js ''51.0 MB''))
   \<and> estimatedTime (results_with_size (js ''51.0 MB'')) = None
   \<and> estimatedTime (testInternetSpeed (run_rejected (1 / 2)) (results_with_size (js ''51.0 MB''))
        (results_with_size (js ''51.0 MB''))) = None
   \<and> estimatedTime (testInternetSpeed (run_resolved 200 1000) (results_with_size (js ''51.0 MB''))
        (results_with_size (js ''51.0 MB''))) = Some (js ''51 seconds'')"
proof -
  have a: "fetch_settles (run_rejected (1 / 2)) = Inl host_failure"
    by (simp add: run_rejected_def)
  have b: "totalSize (results_with_size (js ''51.0 MB'')) = Some (JString (js ''51.0 MB''))"
    "estimatedTime (results_with_size (js ''51.0 MB'')) = None"
    by (simp_all add: results_with_size_def no_results_def)
  have c: "estimatedTime (testInternetSpeed (run_resolved 200 1000)
        (results_with_size (js ''51.0 MB'')) (results_with_size (js ''51.0 MB'')))
      = Some (js ''51 seconds'')"
    by (simp add: speed_eval)
  from speed_test_failure_keeps_estimate[OF a, of "results_with_size (js ''51.0 MB'')"
         "results_with_size (js ''51.0 MB'')"] a b c
  show ?thesis by simp
qed

text \<open>
  Claim C8, as amended. The size used for the estimate is \<^verbatim>\<open>parseFloat\<close> of the total size
  with every code unit other than a digit or a point deleted; it is \<^verbatim>\<open>parseFloat\<close> of the
  leading numeric component when no digit or point follows the first run of them.
\<close>

theorem sizeInMB_strips_then_parses:
  "sizeInMB (JString s) = Inr (parseFloat (filter numeric_unit s))
   \<and> ((\<forall>c \<in> set (dropWhile numeric_unit (dropWhile (\<lambda>c. \<not> numeric_unit c) s)). \<not> numeric_unit c)
        \<longrightarrow> sizeInMB (JString s) = Inr (parseFloat (leading_numeric_component s)))"
proof (intro conjI impI)
  show "sizeInMB (JString s) = Inr (parseFloat (filter numeric_unit s))"
    by (simp add: sizeInMB_def replace_non_numeric_def)
next
  assume a: "\<forall>c \<in> set (dropWhile numeric_unit (dropWhile (\<lambda>c. \<not> numeric_unit c) s)).
               \<not> numeric_unit c"
  have "filter numeric_unit s = leading_numeric_component s"
    unfolding leading_numeric_component_def by (rule filter_single_run[OF a])
  then show "sizeInMB (JString s) = Inr (parseFloat (leading_numeric_component s))"
    by (simp add: sizeInMB_def replace_non_numeric_def)
qed

text \<open>The total size \<^verbatim>\<open>51.0 MB\<close> has one run of digits and points, and gives 51.\<close>

theorem sizeInMB_strips_then_parses_witness:
  "dropWhile numeric_unit (dropWhile (\<lambda>c. \<not> numeric_unit c) (js ''51.0 MB'')) = js '' MB''
   \<and> filter numeric_unit (js '' MB'') = []
   \<and> leading_numeric_component (js ''51.0 MB'') = js ''51.0''
   \<and> sizeInMB (JString (js ''51.0 MB'')) = Inr (Num 51)"
proof -
  have r: "dropWhile numeric_unit (dropWhile (\<lambda>c. \<not> numeric_unit c) (js ''51.0 MB''))
             = js '' MB''"
    "filter numeric_unit (js '' MB'') = []"
    by (simp_all add: numeric_unit_def isDigit_def js_def)
  have a: "\<forall>c \<in> set (dropWhile numeric_unit (dropWhile (\<lambda>c. \<not> numeric_unit c) (js ''51.0 MB''))).
      \<not> numeric_unit c"
    by (simp add: numeric_unit_def isDigit_def js_def)
  have b: "leading_numeric_component (js ''51.0 MB'') = js ''51.0''"
    by (simp add: leading_numeric_component_def numeric_unit_def isDigit_def js_def)
  have c: "parseFloat (js ''51.0'') = Num 51"
    by (simp add: speed_eval)
  from sizeInMB_strips_then_parses[of "js ''51.0 MB''"] a
  have "sizeInMB (JString (js ''51.0 MB''))
          = Inr (parseFloat (leading_numeric_component (js ''51.0 MB'')))"
    by (rule conjunct2[THEN mp])
  then have d: "sizeInMB (JString (js ''51.0 MB'')) = Inr (Num 51)"
    by (simp only: b c)
  from r b d show ?thesis by (intro conjI)
qed

text \<open>
  Against the claim as stated: for \<^verbatim>\<open>1.2 GB (x2)\<close> the leading numeric component is \<^verbatim>\<open>1.2\<close>,
  and the size used is the binary64 value of 1.22, not that of 1.2.
\<close>

theorem sizeInMB_interleaved_digits_counterexample:
  "leading_numeric_component (js ''1.2 GB (x2)'') = js ''1.2''
   \<and> parseFloat (leading_numeric_component (js ''1.2 GB (x2)''))
       = Num (5404319552844595 / 4503599627370496)
   \<and> sizeInMB (JString (js ''1.2 GB (x2)'')) = Inr (Num (5494391545392005 / 4503599627370496))
   \<and> sizeInMB (JString (js ''1.2 GB (x2)''))
       \<noteq> Inr (parseFloat (leading_numeric_component (js ''1.2 GB (x2)'')))"
  by (simp add: leading_numeric_component_def speed_eval)

text \<open>
  Claim C9. Each operation leaves the fields of the results record that are not its own
  as they were: the speed test changes at most \<^verbatim>\<open>internetSpeed\<close> and \<^verbatim>\<open>estimatedTime\<close>, the
  file analysis at most \<^verbatim>\<open>dockerSteps\<close>, \<^verbatim>\<open>requirements\<close> and \<^verbatim>\<open>totalSize\<close>, the compilation
  analysis at most \<^verbatim>\<open>compilationAnalysis\<close>.
\<close>

theorem operations_write_own_fields:
  "dockerSteps (testInternetSpeed run results prev) = dockerSteps prev
   \<and> requirements (testInternetSpeed run results prev) = requirements prev
   \<and> totalSize (testInternetSpeed run results prev) = totalSize prev
   \<and> compilationAnalysis (testInternetSpeed run results prev) = compilationAnalysis prev
   \<and> internetSpeed (analyzeFiles parser genAI dockerFile requirementsFile prev)
       = internetSpeed prev
   \<and> estimatedTime (analyzeFiles parser genAI dockerFile requirementsFile prev)
       = estimatedTime prev
   \<and> compilationAnalysis (analyzeFiles parser genAI dockerFile requirementsFile prev)
       = compilationAnalysis prev
   \<and> dockerSteps (analyzeCompilation parser genAI dockerFile requirementsFile caps prev)
       = dockerSteps prev
   \<and> requirements (analyzeCompilation parser genAI dockerFile requirementsFile caps prev)
       = requirements prev
   \<and> totalSize (analyzeCompilation parser genAI dockerFile requirementsFile caps prev)
       = totalSize prev
   \<and> internetSpeed (analyzeCompilation parser genAI dockerFile requirementsFile caps prev)
       = internetSpeed prev
   \<and> estimatedTime (analyzeCompilation parser genAI dockerFile requirementsFile caps prev)
       = estimatedTime prev"
  using testInternetSpeed_frame[of run results prev]
    analyzeFiles_frame[of parser genAI dockerFile requirementsFile prev]
    analyzeCompilation_frame[of parser genAI dockerFile requirementsFile caps prev]
  by simp

text \<open>
  Claim C10. (a) A text in which the lower-case opening fence \<^verbatim>\<open>```json\<close> does not occur is
  not matched by the fenced branch, and the extraction returns what the brace heuristic
  finds. (b) For a text with two fenced JSON blocks, the first of them beginning at the
  first opening fence of the text, the extraction returns the trimmed interior of the
  first block.
\<close>

theorem fenced_branch_lowercase_first:
  "(\<not> sublist fence_open text \<longrightarrow>
      search match_fence_at text = None \<and> extractJSON text = search match_curly_at text)
   \<and> (text = pre @ fence_open @ body1 @ fence_close @ mid @ fence_open @ body2 @ fence_close @ post
       \<and> \<not> sublist fence_open (pre @ butlast fence_open)
       \<and> \<not> sublist fence_close (body1 @ butlast fence_close)
      \<longrightarrow> extractJSON text = Some (trim body1))"
proof (intro conjI impI)
  assume a: "\<not> sublist fence_open text"
  from search_fence_no_open[OF a] show "search match_fence_at text = None" .
  from search_fence_no_open[OF a] show "extractJSON text = search match_curly_at text"
    by (simp add: extractJSON_def)
next
  assume a: "text = pre @ fence_open @ body1 @ fence_close @ mid @ fence_open @ body2 @ fence_close @ post
       \<and> \<not> sublist fence_open (pre @ butlast fence_open)
       \<and> \<not> sublist fence_close (body1 @ butlast fence_close)"
  then have "search match_fence_at text = Some body1"
    using search_fence_first[of pre body1 "mid @ fence_open @ body2 @ fence_close @ post"]
    by simp
  then show "extractJSON text = Some (trim body1)" by (simp add: extractJSON_def)
qed

text \<open>A block fenced with \<^verbatim>\<open>```JSON\<close> in upper case, and a text with two fenced blocks.\<close>

theorem fenced_branch_lowercase_first_witness:
  "\<not> sublist fence_open sample_uppercase
   \<and> search match_fence_at sample_uppercase = None
   \<and> extractJSON sample_uppercase = Some (js ''{ a: 1 }'')
   \<and> \<not> sublist fence_open (butlast fence_open)
   \<and> \<not> sublist fence_close (([0xA] @ js ''{ first }'' @ [0xA]) @ butlast fence_close)
   \<and> extractJSON sample_two_blocks = Some (js ''{ first }'')"
proof -
  have a: "\<not> sublist fence_open sample_uppercase"
    by (simp add: sample_uppercase_def string_eval)
  have b: "search match_curly_at sample_uppercase = Some (js ''{ a: 1 }'')"
    by (simp add: sample_uppercase_def string_eval)
  have c: "sample_two_blocks = [] @ fence_open @ ([0xA] @ js ''{ first }'' @ [0xA]) @ fence_close
             @ js '' then '' @ fence_open @ ([0xA] @ js ''{ second }'' @ [0xA]) @ fence_close @ []"
    by (simp add: sample_two_blocks_def string_eval)
  have d: "\<not> sublist fence_open ([] @ butlast fence_open)"
    by (simp add: string_eval)
  have e: "\<not> sublist fence_close (([0xA] @ js ''{ first }'' @ [0xA]) @ butlast fence_close)"
    by (simp add: string_eval)
  have t: "trim ([0xA] @ js ''{ first }'' @ [0xA]) = js ''{ first }''"
    by (simp add: string_eval)
  from a b c d e t
    fenced_branch_lowercase_first[of sample_uppercase]
    fenced_branch_lowercase_first[of sample_two_blocks "[]" "[0xA] @ js ''{ first }'' @ [0xA]"
      "js '' then ''" "[0xA] @ js ''{ second }'' @ [0xA]" "[]"]
  show ?thesis by simp
qed

end
